theory Spec2Isabelle
  imports Complex_Main "HOL-Library.Multiset"
begin

section \<open>Cells, rows and the coercion layer\<close>

text \<open>
  The spreadsheet reader hands every pipeline a list of rows of type
  \<^verbatim>\<open>Record<string, unknown>\<close>. A cell is tested by the coercion functions with
  \<^verbatim>\<open>typeof v === "string"\<close> and \<^verbatim>\<open>typeof v === "number"\<close> only, so a cell is a
  string, a number, or anything else (\<open>Other\<close>: \<^verbatim>\<open>undefined\<close> for a missing key, a
  boolean, a date object). A row is the function from header to cell.

  Numbers are modelled by their exact real value: the rounding of binary64
  arithmetic is not modelled, the boundary between finite and non-finite results of
  \<^verbatim>\<open>Number(string)\<close> is. Cells hold finite numbers. Strings are lists of
  \<open>char\<close>; the character classes the code tests (decimal digits, white space, the
  letters of a numeric literal) are ASCII.
\<close>

datatype cell = Str string | Num real | Other

type_synonym AnyRow = "string \<Rightarrow> cell"

subsection \<open>\<^verbatim>\<open>Number(string)\<close>\<close>

definition is_digit :: "char \<Rightarrow> bool" where
  "is_digit c = (c \<in> set ''0123456789'')"

definition digit_val :: "char \<Rightarrow> nat" where
  "digit_val c = of_char c - 48"

text \<open>The mathematical value of a string of decimal digits, most significant first.\<close>

definition digits_value :: "string \<Rightarrow> nat" where
  "digits_value ds = foldl (\<lambda>a c. 10 * a + digit_val c) 0 ds"

text \<open>
  \<^verbatim>\<open>StrWhiteSpaceChar\<close> in the ASCII range: tab, line feed, vertical tab, form feed,
  carriage return, space.
\<close>

definition is_ws :: "char \<Rightarrow> bool" where
  "is_ws c = (c \<in> set [CHR 0x09, CHR 0x0A, CHR 0x0B, CHR 0x0C, CHR 0x0D, CHR '' ''])"

definition trim_ws :: "string \<Rightarrow> string" where
  "trim_ws s = rev (dropWhile is_ws (rev (dropWhile is_ws s)))"

text \<open>
  A number is finite as a binary64 value when its magnitude is below the midpoint
  between the largest double and \<open>2 ^ 1024\<close> (the midpoint itself rounds to infinity),
  and it rounds to zero when its magnitude is at most half the smallest subnormal.
\<close>

definition overflow_bound :: real where
  "overflow_bound = 2 ^ 1024 - 2 ^ 970"

definition underflow_bound :: real where
  "underflow_bound = 1 / 2 ^ 1075"

definition to_finite :: "real \<Rightarrow> real option" where
  "to_finite x =
     (if overflow_bound \<le> \<bar>x\<bar> then None
      else if \<bar>x\<bar> \<le> underflow_bound then Some 0
      else Some x)"

text \<open>The digit of a binary, octal or hexadecimal literal, \<open>None\<close> when it is not one.\<close>

definition radix_digit :: "nat \<Rightarrow> char \<Rightarrow> nat option" where
  "radix_digit radix c =
     (let v = (if is_digit c then Some (of_char c - 48)
               else if c \<in> set ''abcdef'' then Some (of_char c - 87)
               else if c \<in> set ''ABCDEF'' then Some (of_char c - 55)
               else None)
      in case v of None \<Rightarrow> None | Some n \<Rightarrow> if n < radix then Some n else None)"

fun radix_value :: "nat \<Rightarrow> nat \<Rightarrow> string \<Rightarrow> nat option" where
  "radix_value radix acc [] = Some acc"
| "radix_value radix acc (c # cs) =
     (case radix_digit radix c of
        None \<Rightarrow> None
      | Some d \<Rightarrow> radix_value radix (radix * acc + d) cs)"

text \<open>\<^verbatim>\<open>NonDecimalIntegerLiteral\<close>: the digits after \<^verbatim>\<open>0x\<close>, \<^verbatim>\<open>0o\<close> or \<^verbatim>\<open>0b\<close>; at least one.\<close>

definition non_decimal_literal :: "nat \<Rightarrow> string \<Rightarrow> real option" where
  "non_decimal_literal radix ds =
     (if ds = [] then None
      else case radix_value radix 0 ds of
             None \<Rightarrow> None
           | Some n \<Rightarrow> to_finite (real n))"

text \<open>
  \<^verbatim>\<open>ExponentPart\<close>: nothing, or \<^verbatim>\<open>e\<close>/\<^verbatim>\<open>E\<close>, an optional sign and at least one digit,
  up to the end of the literal. \<open>None\<close> when the text is neither.
\<close>

definition exponent_part :: "string \<Rightarrow> int option" where
  "exponent_part s =
     (case s of
        [] \<Rightarrow> Some 0
      | c # t \<Rightarrow>
          if c = CHR ''e'' \<or> c = CHR ''E'' then
            (case t of
               [] \<Rightarrow> None
             | d # u \<Rightarrow>
                 if d = CHR ''-'' then
                   (if u \<noteq> [] \<and> list_all is_digit u then Some (- int (digits_value u)) else None)
                 else if d = CHR ''+'' then
                   (if u \<noteq> [] \<and> list_all is_digit u then Some (int (digits_value u)) else None)
                 else (if list_all is_digit t then Some (int (digits_value t)) else None))
          else None)"

definition scale10 :: "real \<Rightarrow> int \<Rightarrow> real" where
  "scale10 x e = (if 0 \<le> e then x * 10 ^ nat e else x / 10 ^ nat (- e))"

text \<open>
  \<^verbatim>\<open>StrUnsignedDecimalLiteral\<close> without \<^verbatim>\<open>Infinity\<close>: digits, an optional point and
  digits (at least one digit on one side of the point), an optional exponent. The result
  is the mathematical value, \<open>None\<close> when the text is not such a literal.
\<close>

definition unsigned_decimal :: "string \<Rightarrow> real option" where
  "unsigned_decimal s =
     (let ip = takeWhile is_digit s;
          r1 = dropWhile is_digit s;
          fp = (case r1 of [] \<Rightarrow> [] | c # t \<Rightarrow> if c = CHR ''.'' then takeWhile is_digit t else []);
          r2 = (case r1 of [] \<Rightarrow> [] | c # t \<Rightarrow> if c = CHR ''.'' then dropWhile is_digit t else r1)
      in if ip = [] \<and> fp = [] then None
         else case exponent_part r2 of
                None \<Rightarrow> None
              | Some e \<Rightarrow>
                  Some (scale10 (real (digits_value ip) + real (digits_value fp) / 10 ^ length fp) e))"

definition signed_decimal :: "string \<Rightarrow> real option" where
  "signed_decimal s =
     (case s of
        [] \<Rightarrow> None
      | c # t \<Rightarrow>
          if c = CHR ''-'' then map_option uminus (unsigned_decimal t)
          else if c = CHR ''+'' then unsigned_decimal t
          else unsigned_decimal s)"

text \<open>
  \<^verbatim>\<open>Number(s)\<close> for a string \<open>s\<close>, as far as the code uses it: every call is followed by
  \<^verbatim>\<open>Number.isFinite\<close>. The result is \<open>Some v\<close> when \<^verbatim>\<open>Number(s)\<close> is the finite number
  \<open>v\<close>, and \<open>None\<close> when it is \<^verbatim>\<open>NaN\<close>, \<^verbatim>\<open>Infinity\<close> or \<^verbatim>\<open>-Infinity\<close>. White space
  is trimmed, the empty string is 0, a literal with a radix prefix takes no sign.
\<close>

definition Number_of_string :: "string \<Rightarrow> real option" where
  "Number_of_string s =
     (let t = trim_ws s in
      if t = [] then Some 0
      else if take 2 t = ''0x'' \<or> take 2 t = ''0X'' then non_decimal_literal 16 (drop 2 t)
      else if take 2 t = ''0o'' \<or> take 2 t = ''0O'' then non_decimal_literal 8 (drop 2 t)
      else if take 2 t = ''0b'' \<or> take 2 t = ''0B'' then non_decimal_literal 2 (drop 2 t)
      else case signed_decimal t of
             None \<Rightarrow> None
           | Some x \<Rightarrow> to_finite x)"

subsection \<open>The coercion functions\<close>

text \<open>
  \<^verbatim>\<open>String(v)\<close> of a number is the language's number-to-string conversion; the
  functions that call it take it as the parameter \<open>numToString\<close>.
\<close>

definition stringFrom :: "(real \<Rightarrow> string) \<Rightarrow> AnyRow \<Rightarrow> string \<Rightarrow> string" where
  "stringFrom numToString row key =
     (case row key of Str s \<Rightarrow> s | Num x \<Rightarrow> numToString x | Other \<Rightarrow> [])"

definition numberFrom :: "AnyRow \<Rightarrow> string \<Rightarrow> real" where
  "numberFrom row key =
     (case row key of
        Num x \<Rightarrow> x
      | Str s \<Rightarrow> (case Number_of_string s of Some n \<Rightarrow> n | None \<Rightarrow> 0)
      | Other \<Rightarrow> 0)"

text \<open>\<^verbatim>\<open>v.replace(/\D/g, "")\<close>: every character that is not a decimal digit is removed.\<close>

definition digitsOnly :: "string \<Rightarrow> string" where
  "digitsOnly v = filter is_digit v"

definition amountFrom :: "AnyRow \<Rightarrow> string \<Rightarrow> real" where
  "amountFrom row key =
     (case row key of
        Num x \<Rightarrow> x
      | Str s \<Rightarrow>
          (if digitsOnly s = [] then 0
           else case Number_of_string (digitsOnly s) of Some n \<Rightarrow> n | None \<Rightarrow> 0)
      | Other \<Rightarrow> 0)"

text \<open>
  \<^verbatim>\<open>toLowerCase\<close> on the letters A to Z. No other character lower-cases to a letter of
  \<^verbatim>\<open>treatment\<close> or \<^verbatim>\<open>product\<close>, the two strings the result is compared with.
\<close>

definition lower_char :: "char \<Rightarrow> char" where
  "lower_char c =
     (case map_of (zip ''ABCDEFGHIJKLMNOPQRSTUVWXYZ'' ''abcdefghijklmnopqrstuvwxyz'') c of
        Some l \<Rightarrow> l
      | None \<Rightarrow> c)"

definition toLowerCase :: "string \<Rightarrow> string" where
  "toLowerCase s = map lower_char s"

definition lowerStringFrom :: "(real \<Rightarrow> string) \<Rightarrow> AnyRow \<Rightarrow> string \<Rightarrow> string" where
  "lowerStringFrom numToString row key = toLowerCase (stringFrom numToString row key)"

text \<open>\<^verbatim>\<open>a || b\<close> on strings: the empty string is the only falsy one.\<close>

definition or_default :: "string \<Rightarrow> string \<Rightarrow> string" where
  "or_default a b = (if a = [] then b else a)"

text \<open>\<^verbatim>\<open>s.split(sep)\<close> for a separator of one character; the result is never empty.\<close>

fun split_acc :: "char \<Rightarrow> string \<Rightarrow> string \<Rightarrow> string list" where
  "split_acc sep acc [] = [rev acc]"
| "split_acc sep acc (c # cs) =
     (if c = sep then rev acc # split_acc sep [] cs else split_acc sep (c # acc) cs)"

definition split :: "string \<Rightarrow> char \<Rightarrow> string list" where
  "split s sep = split_acc sep [] s"

section \<open>Dates\<close>

text \<open>
  Every date of the program is built from a year, a month and a day with the time of
  day at zero, so a date is its day number (days since 1 January 1970), or the invalid
  date, whose time value is \<^verbatim>\<open>NaN\<close>. Local time is modelled with a constant zero
  offset. The functions below are the ones of the language definition: \<open>DayFromYear\<close>,
  \<open>MakeDay\<close>, \<open>TimeClip\<close>, \<open>YearFromTime\<close>, \<open>MonthFromTime\<close>, \<open>DateFromTime\<close>.
\<close>

datatype jsdate = Day int | InvalidDate

text \<open>Truncation towards zero.\<close>

definition ToIntegerOrInfinity :: "real \<Rightarrow> int" where
  "ToIntegerOrInfinity x = (if 0 \<le> x then \<lfloor>x\<rfloor> else - \<lfloor>- x\<rfloor>)"

definition DayFromYear :: "int \<Rightarrow> int" where
  "DayFromYear y =
     365 * (y - 1970) + (y - 1969) div 4 - (y - 1901) div 100 + (y - 1601) div 400"

definition DaysInYear :: "int \<Rightarrow> int" where
  "DaysInYear y =
     (if y mod 4 \<noteq> 0 then 365
      else if y mod 100 \<noteq> 0 then 366
      else if y mod 400 \<noteq> 0 then 365
      else 366)"

definition InLeapYear :: "int \<Rightarrow> int" where
  "InLeapYear y = (if DaysInYear y = 366 then 1 else 0)"

text \<open>The day within the year on which month \<open>mn\<close> (0 to 11) starts; \<open>leap\<close> is 0 or 1.\<close>

definition month_start :: "int \<Rightarrow> int \<Rightarrow> int" where
  "month_start mn leap =
     (if mn \<le> 0 then 0
      else if mn = 1 then 31
      else if mn = 2 then 59 + leap
      else if mn = 3 then 90 + leap
      else if mn = 4 then 120 + leap
      else if mn = 5 then 151 + leap
      else if mn = 6 then 181 + leap
      else if mn = 7 then 212 + leap
      else if mn = 8 then 243 + leap
      else if mn = 9 then 273 + leap
      else if mn = 10 then 304 + leap
      else 334 + leap)"

definition MakeDay :: "int \<Rightarrow> int \<Rightarrow> int \<Rightarrow> int" where
  "MakeDay year month date =
     (let ym = year + month div 12;
          mn = month mod 12
      in DayFromYear ym + month_start mn (InLeapYear ym) + date - 1)"

text \<open>\<open>TimeClip\<close>: a time value beyond 8.64e15 ms, that is 1e8 days, is \<^verbatim>\<open>NaN\<close>.\<close>

definition TimeClip :: "int \<Rightarrow> jsdate" where
  "TimeClip day = (if \<bar>day\<bar> > 100000000 then InvalidDate else Day day)"

text \<open>
  \<^verbatim>\<open>new Date(year, monthIndex, day)\<close> on finite numbers: each argument is truncated
  towards zero, and a year from 0 to 99 stands for 1900 to 1999.
\<close>

definition new_Date :: "real \<Rightarrow> real \<Rightarrow> real \<Rightarrow> jsdate" where
  "new_Date year monthIndex day =
     (let yi = ToIntegerOrInfinity year;
          yr = (if 0 \<le> yi \<and> yi \<le> 99 then 1900 + yi else yi)
      in TimeClip (MakeDay yr (ToIntegerOrInfinity monthIndex) (ToIntegerOrInfinity day)))"

text \<open>\<open>YearFromTime\<close>: the largest year whose first day is not after the day.\<close>

definition YearFromDay :: "int \<Rightarrow> int" where
  "YearFromDay d =
     (let y = 1970 + (400 * d) div 146097
      in if DayFromYear (y + 1) \<le> d then y + 1
         else if d < DayFromYear y then y - 1
         else y)"

definition DayWithinYear :: "int \<Rightarrow> int" where
  "DayWithinYear d = d - DayFromYear (YearFromDay d)"

definition MonthFromDay :: "int \<Rightarrow> int" where
  "MonthFromDay d =
     (let dwy = DayWithinYear d;
          leap = InLeapYear (YearFromDay d)
      in if dwy < 31 then 0
         else if dwy < 59 + leap then 1
         else if dwy < 90 + leap then 2
         else if dwy < 120 + leap then 3
         else if dwy < 151 + leap then 4
         else if dwy < 181 + leap then 5
         else if dwy < 212 + leap then 6
         else if dwy < 243 + leap then 7
         else if dwy < 273 + leap then 8
         else if dwy < 304 + leap then 9
         else if dwy < 334 + leap then 10
         else 11)"

definition DateFromDay :: "int \<Rightarrow> int" where
  "DateFromDay d =
     DayWithinYear d - month_start (MonthFromDay d) (InLeapYear (YearFromDay d)) + 1"

text \<open>\<^verbatim>\<open>getMonth()\<close> is \<^verbatim>\<open>NaN\<close> (\<open>None\<close>) on the invalid date.\<close>

definition getMonth :: "jsdate \<Rightarrow> int option" where
  "getMonth d = (case d of Day t \<Rightarrow> Some (MonthFromDay t) | InvalidDate \<Rightarrow> None)"

text \<open>\<^verbatim>\<open>d.setMonth(m)\<close>: the year and the day of the month are kept, the result is clipped.\<close>

definition setMonth :: "jsdate \<Rightarrow> int option \<Rightarrow> jsdate" where
  "setMonth d m =
     (case d of
        InvalidDate \<Rightarrow> InvalidDate
      | Day t \<Rightarrow>
          (case m of
             None \<Rightarrow> InvalidDate
           | Some mi \<Rightarrow> TimeClip (MakeDay (YearFromDay t) mi (DateFromDay t))))"

text \<open>\<^verbatim>\<open>a <= b\<close> on dates compares the time values; it is false when one is \<^verbatim>\<open>NaN\<close>.\<close>

definition date_le :: "jsdate \<Rightarrow> jsdate \<Rightarrow> bool" where
  "date_le a b = (case a of Day x \<Rightarrow> (case b of Day y \<Rightarrow> x \<le> y | InvalidDate \<Rightarrow> False) | InvalidDate \<Rightarrow> False)"

definition parseDate :: "cell \<Rightarrow> jsdate option" where
  "parseDate dateStr =
     (case dateStr of
        Str s \<Rightarrow>
          if s = [] then None
          else (case split s CHR '' '' of
                  [] \<Rightarrow> None
                | first # rest \<Rightarrow>
                    (case split first CHR ''/'' of
                       [dd, mm, yyyy] \<Rightarrow>
                         (case Number_of_string dd of
                            None \<Rightarrow> None
                          | Some day \<Rightarrow>
                              (case Number_of_string mm of
                                 None \<Rightarrow> None
                               | Some month \<Rightarrow>
                                   (case Number_of_string yyyy of
                                      None \<Rightarrow> None
                                    | Some year \<Rightarrow> Some (new_Date year (month - 1) day))))
                     | _ \<Rightarrow> None))
      | _ \<Rightarrow> None)"

text \<open>
  \<^verbatim>\<open>fromDateInputValue\<close>: the value of the date input, \<^verbatim>\<open>YYYY-MM-DD\<close>. The final
  \<^verbatim>\<open>setHours(0, 0, 0, 0)\<close> leaves a day number as it is.
\<close>

definition fromDateInputValue :: "string \<Rightarrow> jsdate option" where
  "fromDateInputValue v =
     (if v = [] then None
      else (case split v CHR ''-'' of
              [yyyy, mm, dd] \<Rightarrow>
                (case Number_of_string yyyy of
                   None \<Rightarrow> None
                 | Some year \<Rightarrow>
                     (case Number_of_string mm of
                        None \<Rightarrow> None
                      | Some month \<Rightarrow>
                          (case Number_of_string dd of
                             None \<Rightarrow> None
                           | Some day \<Rightarrow> Some (new_Date year (month - 1) day))))
            | _ \<Rightarrow> None))"

section \<open>Clinic maps and sorting\<close>

text \<open>
  A clinic map is the object \<^verbatim>\<open>const clinicMap: Record<string, ...> = {}\<close> that a
  pipeline fills: its own properties in insertion order, every key once. A lookup
  \<^verbatim>\<open>clinicMap[k]\<close> is \<open>map_of\<close>; the keys are the clinic codes of the rows, read as
  own properties (a code is taken not to name a property inherited from
  \<^verbatim>\<open>Object.prototype\<close>). \<^verbatim>\<open>Object.values\<close> is \<open>map snd\<close>.
\<close>

type_synonym 'a ClinicMap = "(string \<times> 'a) list"

text \<open>\<^verbatim>\<open>clinicMap[k].f = ...\<close>: the summary stored under \<open>k\<close> is replaced by \<open>f\<close> of it.\<close>

definition update_entry :: "string \<Rightarrow> ('a \<Rightarrow> 'a) \<Rightarrow> 'a ClinicMap \<Rightarrow> 'a ClinicMap" where
  "update_entry k f m = map (\<lambda>(k', v). if k' = k then (k', f v) else (k', v)) m"

text \<open>\<^verbatim>\<open>if (!clinicMap[k]) clinicMap[k] = init\<close>: a summary object is truthy.\<close>

definition ensure_entry :: "string \<Rightarrow> 'a \<Rightarrow> 'a ClinicMap \<Rightarrow> 'a ClinicMap" where
  "ensure_entry k init m = (if map_of m k = None then m @ [(k, init)] else m)"

text \<open>
  \<^verbatim>\<open>xs.sort(compare)\<close> as a stable insertion sort; \<open>compare a b \<le> 0\<close> keeps \<open>a\<close> before
  \<open>b\<close>. The comparison of clinic codes, \<^verbatim>\<open>a.localeCompare(b)\<close>, depends on the host's
  locale and is the parameter \<open>localeCompare\<close> of the pipelines.
\<close>

fun insert_by :: "('a \<Rightarrow> 'a \<Rightarrow> int) \<Rightarrow> 'a \<Rightarrow> 'a list \<Rightarrow> 'a list" where
  "insert_by compare x [] = [x]"
| "insert_by compare x (y # ys) =
     (if compare x y \<le> 0 then x # y # ys else y # insert_by compare x ys)"

definition sort_by :: "('a \<Rightarrow> 'a \<Rightarrow> int) \<Rightarrow> 'a list \<Rightarrow> 'a list" where
  "sort_by compare xs = foldr (insert_by compare) xs []"

section \<open>The deposit pipeline\<close>

record DepositInfoRow =
  depositClinicCode :: string
  userId :: string
  omnicareId :: string
  userName :: string
  phoneNumber :: string
  treatmentName :: string
  expirationDate :: jsdate

text \<open>
  The callback of \<^verbatim>\<open>forEach\<close> in \<^verbatim>\<open>handleFileUpload\<close>: \<open>Some\<close> of the record it pushes,
  \<open>None\<close> when it returns early.
\<close>

definition deposit_row :: "(real \<Rightarrow> string) \<Rightarrow> AnyRow \<Rightarrow> DepositInfoRow option" where
  "deposit_row numToString row =
     (let clinicCode = or_default (stringFrom numToString row ''Deposit Purchase Clinic Code'') ''Unknown'';
          userId = stringFrom numToString row ''User ID'';
          omnicareId = or_default (stringFrom numToString row ''Omnicare Id'')
                         (or_default (stringFrom numToString row ''Omnicare ID'') []);
          userName = stringFrom numToString row ''Name'';
          phoneNumber = stringFrom numToString row ''Phone Number'';
          expirationDate = parseDate (row ''Deposit Expiration Time'');
          treatmentName = stringFrom numToString row ''Treatment Display Name''
      in case expirationDate of
           None \<Rightarrow> None
         | Some date \<Rightarrow>
             if userId = [] then None
             else Some \<lparr> depositClinicCode = clinicCode, userId = userId, omnicareId = omnicareId,
                         userName = userName, phoneNumber = phoneNumber,
                         treatmentName = treatmentName, expirationDate = date \<rparr>)"

text \<open>The rows pushed to \<^verbatim>\<open>processedRows\<close>, in the order of the sheet.\<close>

definition processedRows :: "(real \<Rightarrow> string) \<Rightarrow> AnyRow list \<Rightarrow> DepositInfoRow list" where
  "processedRows numToString jsonData =
     List.map_filter (deposit_row numToString)
       (filter (\<lambda>row. numberFrom row ''Remaining Quantity'' > 0) jsonData)"

text \<open>
  The comparison of the final sort: clinic code, then expiration time; a difference
  of time values that is \<^verbatim>\<open>NaN\<close> counts as 0.
\<close>

definition deposit_compare :: "(string \<Rightarrow> string \<Rightarrow> int) \<Rightarrow> DepositInfoRow \<Rightarrow> DepositInfoRow \<Rightarrow> int" where
  "deposit_compare localeCompare a b =
     (let clinicCompare = localeCompare (depositClinicCode a) (depositClinicCode b)
      in if clinicCompare \<noteq> 0 then clinicCompare
         else (case expirationDate a of
                 Day x \<Rightarrow> (case expirationDate b of Day y \<Rightarrow> x - y | InvalidDate \<Rightarrow> 0)
               | InvalidDate \<Rightarrow> 0))"

text \<open>\<^verbatim>\<open>handleFileUpload\<close>: the value it stores in \<^verbatim>\<open>allDepositRows\<close>.\<close>

definition handleFileUpload ::
  "(real \<Rightarrow> string) \<Rightarrow> (string \<Rightarrow> string \<Rightarrow> int) \<Rightarrow> AnyRow list \<Rightarrow> DepositInfoRow list" where
  "handleFileUpload numToString localeCompare jsonData =
     sort_by (deposit_compare localeCompare) (processedRows numToString jsonData)"

text \<open>
  \<^verbatim>\<open>depositDateRange\<close>: the window of the start date typed in the date input, \<open>None\<close>
  when the input does not parse.
\<close>

definition depositDateRange :: "string \<Rightarrow> (jsdate \<times> jsdate) option" where
  "depositDateRange depositStartDate =
     (case fromDateInputValue depositStartDate of
        None \<Rightarrow> None
      | Some start \<Rightarrow> Some (start, setMonth start (map_option (\<lambda>m. m + 2) (getMonth start))))"

text \<open>\<^verbatim>\<open>data\<close>: the rows shown, those that expire inside the window.\<close>

definition data_rows :: "DepositInfoRow list \<Rightarrow> (jsdate \<times> jsdate) option \<Rightarrow> DepositInfoRow list" where
  "data_rows allDepositRows dateRange =
     (case dateRange of
        None \<Rightarrow> []
      | Some (start, end_date) \<Rightarrow>
          filter (\<lambda>row. date_le start (expirationDate row) \<and> date_le (expirationDate row) end_date)
            allDepositRows)"

section \<open>The revenue pipeline\<close>

text \<open>
  The totals object has the numeric fields of a clinic summary; the summary adds the
  clinic code. The field \<^verbatim>\<open>total\<close> of the three summary types is \<open>revenueTotal\<close>,
  \<open>purchaseTotal\<close> and \<open>cashinTotal\<close>, and \<^verbatim>\<open>clinicCode\<close> is \<open>clinicCode\<close>,
  \<open>purchaseClinicCode\<close>, \<open>cashinClinicCode\<close> and, in a deposit row, \<open>depositClinicCode\<close>.
\<close>

record RevenueTotals =
  treatmentRetailPrice :: real
  treatmentSellingPrice :: real
  treatmentDiscount :: real
  productRetailPrice :: real
  productSellingPrice :: real
  productDiscount :: real
  revenueTotal :: real

record RevenueClinicSummary = RevenueTotals +
  clinicCode :: string

definition revenue_init :: "string \<Rightarrow> RevenueClinicSummary" where
  "revenue_init code =
     \<lparr> treatmentRetailPrice = 0, treatmentSellingPrice = 0, treatmentDiscount = 0,
       productRetailPrice = 0, productSellingPrice = 0, productDiscount = 0,
       revenueTotal = 0, clinicCode = code \<rparr>"

text \<open>The callback of \<^verbatim>\<open>forEach\<close> in \<^verbatim>\<open>handleRevenueUpload\<close>, on the clinic map.\<close>

definition revenue_row ::
  "(real \<Rightarrow> string) \<Rightarrow> RevenueClinicSummary ClinicMap \<Rightarrow> AnyRow \<Rightarrow> RevenueClinicSummary ClinicMap" where
  "revenue_row numToString clinicMap row =
     (let code = or_default (stringFrom numToString row ''Clinic Code'') ''Unknown'';
          itemType = lowerStringFrom numToString row ''Purchase Item Type'';
          retailPrice = numberFrom row ''Total Retail Price'';
          sellingPrice = numberFrom row ''Total Selling Price'';
          discount = numberFrom row ''Total Discount'';
          finalPrice = numberFrom row ''Total Final Price'';
          m1 = ensure_entry code (revenue_init code) clinicMap;
          m2 = (if itemType = ''treatment'' then
                  update_entry code (\<lambda>c. c\<lparr> treatmentRetailPrice := treatmentRetailPrice c + retailPrice,
                                             treatmentSellingPrice := treatmentSellingPrice c + sellingPrice,
                                             treatmentDiscount := treatmentDiscount c + discount \<rparr>) m1
                else if itemType = ''product'' then
                  update_entry code (\<lambda>c. c\<lparr> productRetailPrice := productRetailPrice c + retailPrice,
                                             productSellingPrice := productSellingPrice c + sellingPrice,
                                             productDiscount := productDiscount c + discount \<rparr>) m1
                else m1)
      in update_entry code (\<lambda>c. c\<lparr> revenueTotal := revenueTotal c + finalPrice \<rparr>) m2)"

definition revenue_clinicMap :: "(real \<Rightarrow> string) \<Rightarrow> AnyRow list \<Rightarrow> RevenueClinicSummary ClinicMap" where
  "revenue_clinicMap numToString jsonData = foldl (revenue_row numToString) [] jsonData"

text \<open>\<^verbatim>\<open>handleRevenueUpload\<close>: the value it stores in \<^verbatim>\<open>revenueData\<close>.\<close>

definition handleRevenueUpload ::
  "(real \<Rightarrow> string) \<Rightarrow> (string \<Rightarrow> string \<Rightarrow> int) \<Rightarrow> AnyRow list \<Rightarrow> RevenueClinicSummary list" where
  "handleRevenueUpload numToString localeCompare jsonData =
     sort_by (\<lambda>a b. localeCompare (clinicCode a) (clinicCode b))
       (map snd (revenue_clinicMap numToString jsonData))"





section \<open>The deposit-purchase pipeline\<close>

record DepositPurchaseTotals =
  totalRetailPrice :: real
  totalSellingPrice :: real
  totalDiscount :: real
  purchaseTotal :: real

record DepositPurchaseClinicSummary = DepositPurchaseTotals +
  purchaseClinicCode :: string

definition purchase_init :: "string \<Rightarrow> DepositPurchaseClinicSummary" where
  "purchase_init code =
     \<lparr> totalRetailPrice = 0, totalSellingPrice = 0, totalDiscount = 0, purchaseTotal = 0,
       purchaseClinicCode = code \<rparr>"

definition purchase_row ::
  "(real \<Rightarrow> string) \<Rightarrow> DepositPurchaseClinicSummary ClinicMap \<Rightarrow> AnyRow
     \<Rightarrow> DepositPurchaseClinicSummary ClinicMap" where
  "purchase_row numToString clinicMap row =
     (let code = or_default (stringFrom numToString row ''Clinic Code'') ''Unknown'';
          retailPrice = numberFrom row ''Total Retail Price'';
          sellingPrice = numberFrom row ''Total Selling Price'';
          discount = numberFrom row ''Total Discount'';
          finalPrice = numberFrom row ''Total Final Price'';
          m1 = ensure_entry code (purchase_init code) clinicMap
      in update_entry code (\<lambda>c. c\<lparr> totalRetailPrice := totalRetailPrice c + retailPrice,
                                    totalSellingPrice := totalSellingPrice c + sellingPrice,
                                    totalDiscount := totalDiscount c + discount,
                                    purchaseTotal := purchaseTotal c + finalPrice \<rparr>) m1)"

definition purchase_clinicMap ::
  "(real \<Rightarrow> string) \<Rightarrow> AnyRow list \<Rightarrow> DepositPurchaseClinicSummary ClinicMap" where
  "purchase_clinicMap numToString jsonData = foldl (purchase_row numToString) [] jsonData"

definition handleDepositPurchaseUpload ::
  "(real \<Rightarrow> string) \<Rightarrow> (string \<Rightarrow> string \<Rightarrow> int) \<Rightarrow> AnyRow list
     \<Rightarrow> DepositPurchaseClinicSummary list" where
  "handleDepositPurchaseUpload numToString localeCompare jsonData =
     sort_by (\<lambda>a b. localeCompare (purchaseClinicCode a) (purchaseClinicCode b))
       (map snd (purchase_clinicMap numToString jsonData))"

section \<open>The cash-in pipeline\<close>

record CashInTotals =
  nonDepositVoucher :: real
  cashinTotal :: real

record CashInClinicSummary = CashInTotals +
  cashinClinicCode :: string
  paymentMethodTotals :: "(string \<times> real) list"
  deposit :: real
  voucher :: real

definition cashin_init :: "string \<Rightarrow> CashInClinicSummary" where
  "cashin_init code =
     \<lparr> nonDepositVoucher = 0, cashinTotal = 0, cashinClinicCode = code,
       paymentMethodTotals = [], deposit = 0, voucher = 0 \<rparr>"

text \<open>\<^verbatim>\<open>totals[method] || 0\<close>: a missing label counts 0.\<close>

definition method_total :: "(string \<times> real) list \<Rightarrow> string \<Rightarrow> real" where
  "method_total methodTotals method = (case map_of methodTotals method of None \<Rightarrow> 0 | Some v \<Rightarrow> v)"

text \<open>\<^verbatim>\<open>totals[method] = v\<close>: a new label is appended, a known one overwritten in place.\<close>

definition set_method :: "(string \<times> real) list \<Rightarrow> string \<Rightarrow> real \<Rightarrow> (string \<times> real) list" where
  "set_method methodTotals method v =
     (if map_of methodTotals method = None then methodTotals @ [(method, v)]
      else map (\<lambda>(k, w). if k = method then (k, v) else (k, w)) methodTotals)"

definition cashin_row ::
  "(real \<Rightarrow> string) \<Rightarrow> CashInClinicSummary ClinicMap \<Rightarrow> AnyRow \<Rightarrow> CashInClinicSummary ClinicMap" where
  "cashin_row numToString clinicMap row =
     (let code = or_default (stringFrom numToString row ''Clinic Code'') ''Unknown'';
          paymentMethod = or_default (stringFrom numToString row ''Payment Method'') ''Unknown'';
          amount = amountFrom row ''Amount'';
          m1 = ensure_entry code (cashin_init code) clinicMap;
          m2 = update_entry code
                 (\<lambda>c. c\<lparr> paymentMethodTotals :=
                            set_method (paymentMethodTotals c) paymentMethod
                              (method_total (paymentMethodTotals c) paymentMethod + amount) \<rparr>) m1;
          m3 = update_entry code (\<lambda>c. c\<lparr> cashinTotal := cashinTotal c + amount \<rparr>) m2;
          m4 = (if paymentMethod = ''Treatment Deposit''
                then update_entry code (\<lambda>c. c\<lparr> deposit := deposit c + amount \<rparr>) m3
                else m3)
      in if paymentMethod = ''Clinic Voucher - Value'' \<or> paymentMethod = ''Clinic Voucher - Treatment''
         then update_entry code (\<lambda>c. c\<lparr> voucher := voucher c + amount \<rparr>) m4
         else m4)"

definition cashin_clinicMap :: "(real \<Rightarrow> string) \<Rightarrow> AnyRow list \<Rightarrow> CashInClinicSummary ClinicMap" where
  "cashin_clinicMap numToString jsonData = foldl (cashin_row numToString) [] jsonData"

text \<open>The \<^verbatim>\<open>map\<close> after the accumulation: the derived field is computed from the other three.\<close>

definition cashin_finish :: "CashInClinicSummary \<Rightarrow> CashInClinicSummary" where
  "cashin_finish clinic =
     clinic\<lparr> nonDepositVoucher := cashinTotal clinic - deposit clinic - voucher clinic \<rparr>"

definition handleCashinUpload ::
  "(real \<Rightarrow> string) \<Rightarrow> (string \<Rightarrow> string \<Rightarrow> int) \<Rightarrow> AnyRow list \<Rightarrow> CashInClinicSummary list" where
  "handleCashinUpload numToString localeCompare jsonData =
     sort_by (\<lambda>a b. localeCompare (cashinClinicCode a) (cashinClinicCode b))
       (map cashin_finish (map snd (cashin_clinicMap numToString jsonData)))"

section \<open>Notions used in the statements\<close>



text \<open>
  The class of a revenue row: the branch that the chain
  \<^verbatim>\<open>if (itemType === "treatment") ... else if (itemType === "product") ...\<close> takes.
\<close>

datatype item_class = Treatment | Product | Neither




definition cashin_add :: "string \<Rightarrow> real \<Rightarrow> CashInClinicSummary \<Rightarrow> CashInClinicSummary" where
  "cashin_add paymentMethod amount c =
     c\<lparr> paymentMethodTotals :=
          set_method (paymentMethodTotals c) paymentMethod
            (method_total (paymentMethodTotals c) paymentMethod + amount),
        cashinTotal := cashinTotal c + amount,
        deposit := (if paymentMethod = ''Treatment Deposit'' then deposit c + amount else deposit c),
        voucher := (if paymentMethod = ''Clinic Voucher - Value'' \<or> paymentMethod = ''Clinic Voucher - Treatment''
                    then voucher c + amount else voucher c) \<rparr>"

text \<open>The invariant of a cash-in summary while the rows are accumulated.\<close>

definition cashin_inv :: "CashInClinicSummary \<Rightarrow> bool" where
  "cashin_inv c =
     (distinct (map fst (paymentMethodTotals c))
      \<and> cashinTotal c = sum_list (map snd (paymentMethodTotals c))
      \<and> deposit c = method_total (paymentMethodTotals c) ''Treatment Deposit''
      \<and> voucher c = method_total (paymentMethodTotals c) ''Clinic Voucher - Value''
                     + method_total (paymentMethodTotals c) ''Clinic Voucher - Treatment''
      \<and> nonDepositVoucher c = 0)"





text \<open>The length of month \<open>mn\<close> (0 to 11) of year \<open>y\<close>, and the dates of the calendar.\<close>

definition DaysInMonth :: "int \<Rightarrow> int \<Rightarrow> int" where
  "DaysInMonth y mn =
     (if mn = 1 then 28 + InLeapYear y
      else if mn = 3 \<or> mn = 5 \<or> mn = 8 \<or> mn = 10 then 30
      else 31)"

definition valid_date :: "int \<Rightarrow> int \<Rightarrow> int \<Rightarrow> bool" where
  "valid_date y mn dt = (0 \<le> mn \<and> mn \<le> 11 \<and> 1 \<le> dt \<and> dt \<le> DaysInMonth y mn)"

text \<open>
  The fields that \<^verbatim>\<open>parseDate\<close> reads: the text before the first space, split at the
  slashes.
\<close>

definition date_fields :: "string \<Rightarrow> string list" where
  "date_fields s = split (takeWhile (\<lambda>c. c \<noteq> CHR '' '') s) CHR ''/''"

text \<open>
  The form \<^verbatim>\<open>DD/MM/YYYY\<close> in the words of the specification: two digits, a slash, two
  digits, a slash and four digits, optionally followed by a space and a time component.
\<close>

definition spec_DD_MM_YYYY :: "string \<Rightarrow> bool" where
  "spec_DD_MM_YYYY s =
     (case takeWhile (\<lambda>c. c \<noteq> CHR '' '') s of
        [d1, d2, s1, m1, m2, s2, y1, y2, y3, y4] \<Rightarrow>
          list_all is_digit [d1, d2, m1, m2, y1, y2, y3, y4] \<and> s1 = CHR ''/'' \<and> s2 = CHR ''/''
      | _ \<Rightarrow> False)"

section \<open>Properties of the coercion layer\<close>

lemma digit_not_ws: "is_digit c \<Longrightarrow> \<not> is_ws c"
  by (auto simp: is_digit_def is_ws_def)

lemma trim_ws_digits:
  assumes "list_all is_digit ds"
  shows "trim_ws ds = ds"
proof -
  have a: "dropWhile is_ws xs = xs" if "list_all is_digit xs" for xs
    using that by (cases xs) (auto simp: digit_not_ws)
  have "list_all is_digit (rev ds)" using assms by (simp add: list_all_iff)
  then show ?thesis using assms by (simp add: trim_ws_def a)
qed

lemma take2_digits:
  assumes "list_all is_digit ds" and "c \<in> set ''xXoObB''"
  shows "take 2 ds \<noteq> [CHR ''0'', c]"
proof (cases ds)
  case Nil then show ?thesis by simp
next
  case (Cons a as)
  show ?thesis
  proof (cases as)
    case Nil with Cons show ?thesis by simp
  next
    case (Cons b bs)
    with \<open>ds = a # as\<close> assms have "is_digit b" by simp
    with assms(2) have "b \<noteq> c" by (auto simp: is_digit_def)
    with Cons \<open>ds = a # as\<close> show ?thesis by simp
  qed
qed

lemma unsigned_decimal_digits:
  assumes "list_all is_digit ds" and "ds \<noteq> []"
  shows "unsigned_decimal ds = Some (real (digits_value ds))"
proof -
  have t: "takeWhile is_digit ds = ds" and d: "dropWhile is_digit ds = []"
    using assms(1) by (simp_all add: list_all_iff)
  have z: "digits_value [] = 0" by (simp add: digits_value_def)
  show ?thesis
    using assms(2) by (simp add: unsigned_decimal_def t d exponent_part_def scale10_def z)
qed

lemma signed_decimal_digits:
  assumes "list_all is_digit ds" and "ds \<noteq> []"
  shows "signed_decimal ds = Some (real (digits_value ds))"
proof (cases ds)
  case Nil with assms show ?thesis by simp
next
  case (Cons a as)
  with assms(1) have "is_digit a" by simp
  then have "a \<noteq> CHR ''-''" "a \<noteq> CHR ''+''" by (auto simp: is_digit_def)
  then show ?thesis
    using unsigned_decimal_digits[OF assms] Cons by (simp add: signed_decimal_def)
qed

text \<open>On a non-empty string of digits, \<^verbatim>\<open>Number\<close> is the decimal value, if finite.\<close>

lemma Number_of_digits:
  assumes "list_all is_digit ds" and "ds \<noteq> []"
  shows "Number_of_string ds = to_finite (real (digits_value ds))"
proof -
  have p: "take 2 ds \<noteq> ''0x''" "take 2 ds \<noteq> ''0X''" "take 2 ds \<noteq> ''0o''"
     "take 2 ds \<noteq> ''0O''" "take 2 ds \<noteq> ''0b''" "take 2 ds \<noteq> ''0B''"
    using take2_digits[OF assms(1)] by simp_all
  show ?thesis
    using assms(2) p
    by (simp add: Number_of_string_def trim_ws_digits[OF assms(1)] signed_decimal_digits[OF assms])
qed

lemma underflow_bound_lt_1: "underflow_bound < 1"
  by (simp add: underflow_bound_def)

lemma two53_lt_overflow_bound: "(2::real) ^ 53 < overflow_bound"
  by (simp add: overflow_bound_def)

lemma to_finite_0: "to_finite 0 = Some 0"
  using underflow_bound_lt_1 two53_lt_overflow_bound
  by (simp add: to_finite_def underflow_bound_def)

text \<open>The integers below \<open>2 ^ 53\<close> are numbers of the program, exactly.\<close>

lemma to_finite_nat:
  assumes "n < 2 ^ 53"
  shows "to_finite (real n) = Some (real n)"
proof (cases "n = 0")
  case True
  then show ?thesis by (simp add: to_finite_0)
next
  case False
  then have "1 \<le> real n" by simp
  moreover have "real n < 2 ^ 53" using assms
    by (metis of_nat_less_iff of_nat_numeral of_nat_power)
  ultimately show ?thesis using underflow_bound_lt_1 two53_lt_overflow_bound
    by (simp add: to_finite_def)
qed

lemma to_finite_nonneg: "0 \<le> x \<Longrightarrow> to_finite x = Some y \<Longrightarrow> 0 \<le> y"
  by (auto simp: to_finite_def split: if_splits)

lemma digitsOnly_digits: "list_all is_digit (digitsOnly s)"
  by (simp add: digitsOnly_def list_all_iff)

lemma amountFrom_Str:
  assumes "row key = Str s"
  shows "amountFrom row key =
     (case to_finite (real (digits_value (digitsOnly s))) of Some n \<Rightarrow> n | None \<Rightarrow> 0)"
proof (cases "digitsOnly s = []")
  case True
  then show ?thesis using assms by (simp add: amountFrom_def digits_value_def to_finite_0)
next
  case False
  then show ?thesis using assms Number_of_digits[OF digitsOnly_digits False]
    by (simp add: amountFrom_def)
qed

lemma amountFrom_Str_nonneg:
  assumes "row key = Str s"
  shows "0 \<le> amountFrom row key"
  using to_finite_nonneg[of "real (digits_value (digitsOnly s))"]
    amountFrom_Str[of row key s, OF assms]
  by (auto split: option.splits)





text \<open>
  Claim C10. A numeric cell keeps its sign in \<^verbatim>\<open>amountFrom\<close> (the number -500 gives
  -500). For a string cell the minus sign is dropped with every other character that is
  not a digit, the result depends on the digits alone and is never negative:
  \<^verbatim>\<open>"-500"\<close> and \<^verbatim>\<open>"(500)"\<close> both give 500.
\<close>

theorem amountFrom_sign_asymmetry:
  "(\<forall>x. row key = Num x \<longrightarrow> amountFrom row key = x)
   \<and> amountFrom (\<lambda>k. Num (- 500)) key = - 500
   \<and> (\<forall>s. row key = Str s \<longrightarrow> 0 \<le> amountFrom row key)
   \<and> (\<forall>s. CHR ''-'' \<notin> set (digitsOnly s))
   \<and> (\<forall>s. amountFrom (\<lambda>k. Str s) key = amountFrom (\<lambda>k. Str (digitsOnly s)) key)
   \<and> amountFrom (\<lambda>k. Str ''-500'') key = 500
   \<and> amountFrom (\<lambda>k. Str ''(500)'') key = 500"
proof -
  have n: "\<forall>x. row key = Num x \<longrightarrow> amountFrom row key = x"
    by (simp add: amountFrom_def)
  have m: "amountFrom (\<lambda>k. Num (- 500)) key = - 500" by (simp add: amountFrom_def)
  have p: "\<forall>s. row key = Str s \<longrightarrow> 0 \<le> amountFrom row key"
    using amountFrom_Str_nonneg[of row key] by blast
  have c: "\<forall>s. CHR ''-'' \<notin> set (digitsOnly s)" by (simp add: digitsOnly_def is_digit_def)
  have i: "\<forall>s. amountFrom (\<lambda>k. Str s) key = amountFrom (\<lambda>k. Str (digitsOnly s)) key"
    by (simp add: amountFrom_def digitsOnly_def)
  have v: "digits_value ''500'' = 500" by (simp add: digits_value_def digit_val_def)
  have t: "to_finite (real 500) = Some (real 500)" by (rule to_finite_nat) simp
  have d: "digitsOnly ''-500'' = ''500''" "digitsOnly ''(500)'' = ''500''"
    by (simp_all add: digitsOnly_def is_digit_def)
  have x1: "amountFrom (\<lambda>k. Str ''-500'') key = 500"
    using amountFrom_Str[of "\<lambda>k. Str ''-500''" key "''-500''"] t by (simp add: d v)
  have x2: "amountFrom (\<lambda>k. Str ''(500)'') key = 500"
    using amountFrom_Str[of "\<lambda>k. Str ''(500)''" key "''(500)''"] t by (simp add: d v)
  show ?thesis using n m p c i x1 x2 by blast
qed

theorem amountFrom_sign_asymmetry_witness:
  "(\<lambda>k. Num (- 42)) ''Amount'' = Num (- 42) \<and> amountFrom (\<lambda>k. Num (- 42)) ''Amount'' = - 42
   \<and> (\<lambda>k. Str ''-42'') ''Amount'' = Str ''-42'' \<and> 0 \<le> amountFrom (\<lambda>k. Str ''-42'') ''Amount''"
  using amountFrom_sign_asymmetry[of "\<lambda>k. Num (- 42)" "''Amount''"]
    amountFrom_sign_asymmetry[of "\<lambda>k. Str ''-42''" "''Amount''"]
  by simp

section \<open>Dates: parsing\<close>

lemma digit_val_le: "is_digit c \<Longrightarrow> digit_val c \<le> 9"
  by (auto simp: is_digit_def digit_val_def)

lemma digits_value_snoc: "digits_value (ds @ [c]) = 10 * digits_value ds + digit_val c"
  by (simp add: digits_value_def)

lemma digits_value_bound:
  "list_all is_digit ds \<Longrightarrow> digits_value ds < 10 ^ length ds"
proof (induction ds rule: rev_induct)
  case Nil then show ?case by (simp add: digits_value_def)
next
  case (snoc c ds)
  then have "digits_value ds < 10 ^ length ds" "digit_val c \<le> 9"
    by (simp_all add: digit_val_le)
  then have "10 * digits_value ds + digit_val c < 10 * 10 ^ length ds" by simp
  then show ?case by (simp add: digits_value_snoc)
qed

lemma Number_small:
  assumes "list_all is_digit ds" and "ds \<noteq> []" and "length ds \<le> 15"
  shows "Number_of_string ds = Some (real (digits_value ds))"
proof -
  have "digits_value ds < 10 ^ length ds" by (rule digits_value_bound[OF assms(1)])
  also have "(10::nat) ^ length ds \<le> 10 ^ 15" using assms(3) by (intro power_increasing) simp_all
  also have "(10::nat) ^ 15 < 2 ^ 53" by simp
  finally show ?thesis using Number_of_digits[OF assms(1,2)] to_finite_nat by simp
qed

lemma split_acc_first:
  "split_acc sep acc s =
     (rev acc @ takeWhile (\<lambda>c. c \<noteq> sep) s)
       # (case dropWhile (\<lambda>c. c \<noteq> sep) s of [] \<Rightarrow> [] | c # r \<Rightarrow> split_acc sep [] r)"
  by (induction s arbitrary: acc) auto

lemma split_first:
  "\<exists>rest. split s sep = takeWhile (\<lambda>c. c \<noteq> sep) s # rest"
  unfolding split_def using split_acc_first[of sep "[]" s] by simp

lemma parseDate_Str:
  "parseDate (Str s) =
     (if s = [] then None
      else case date_fields s of
             [dd, mm, yyyy] \<Rightarrow>
               (case Number_of_string dd of
                  None \<Rightarrow> None
                | Some day \<Rightarrow>
                    (case Number_of_string mm of
                       None \<Rightarrow> None
                     | Some month \<Rightarrow>
                         (case Number_of_string yyyy of
                            None \<Rightarrow> None
                          | Some year \<Rightarrow> Some (new_Date year (month - 1) day))))
           | _ \<Rightarrow> None)"
proof -
  obtain rest where "split s CHR '' '' = takeWhile (\<lambda>c. c \<noteq> CHR '' '') s # rest"
    using split_first by blast
  then show ?thesis by (simp add: parseDate_def date_fields_def)
qed

lemma parseDate_iff:
  "(parseDate c \<noteq> None) =
     (\<exists>s dd mm yyyy. c = Str s \<and> s \<noteq> [] \<and> date_fields s = [dd, mm, yyyy]
        \<and> Number_of_string dd \<noteq> None \<and> Number_of_string mm \<noteq> None
        \<and> Number_of_string yyyy \<noteq> None)"
proof (cases c)
  case (Str s)
  show ?thesis unfolding Str parseDate_Str
    by (auto split: list.splits option.splits)
next
  case (Num x) then show ?thesis by (simp add: parseDate_def)
next
  case Other then show ?thesis by (simp add: parseDate_def)
qed

lemma parseDate_time_discarded:
  "parseDate (Str s) = parseDate (Str (takeWhile (\<lambda>c. c \<noteq> CHR '' '') s))"
proof (cases "takeWhile (\<lambda>c. c \<noteq> CHR '' '') s = []")
  case True
  then have "date_fields s = [[]]" by (simp add: date_fields_def split_def)
  then show ?thesis using True by (simp add: parseDate_Str)
next
  case False
  then have "s \<noteq> []" by auto
  moreover have "date_fields (takeWhile (\<lambda>c. c \<noteq> CHR '' '') s) = date_fields s"
    by (simp add: date_fields_def)
  ultimately show ?thesis using False by (simp add: parseDate_Str)
qed

lemma split_three:
  assumes "CHR ''/'' \<notin> set a" "CHR ''/'' \<notin> set b" "CHR ''/'' \<notin> set c"
  shows "split (a @ CHR ''/'' # b @ CHR ''/'' # c) CHR ''/'' = [a, b, c]"
proof -
  have s: "split_acc sep acc (x @ sep # r) = (rev acc @ x) # split_acc sep [] r" if "sep \<notin> set x"
    for sep acc x r
    using that by (induction x arbitrary: acc) auto
  have e: "split_acc sep acc x = [rev acc @ x]" if "sep \<notin> set x" for sep acc x
    using that by (induction x arbitrary: acc) auto
  show ?thesis unfolding split_def using assms by (simp add: s e)
qed

lemma digit_not_slash: "is_digit c \<Longrightarrow> c \<noteq> CHR ''/''"
  by (auto simp: is_digit_def)

lemma spec_form_parses:
  assumes "spec_DD_MM_YYYY s"
  shows "parseDate (Str s) \<noteq> None"
proof -
  from assms obtain d1 d2 m1 m2 y1 y2 y3 y4 where
    t: "takeWhile (\<lambda>c. c \<noteq> CHR '' '') s = [d1, d2, CHR ''/'', m1, m2, CHR ''/'', y1, y2, y3, y4]"
    and d: "list_all is_digit [d1, d2, m1, m2, y1, y2, y3, y4]"
    by (auto simp: spec_DD_MM_YYYY_def split: list.splits)
  have ne: "s \<noteq> []" using t by auto
  have f: "date_fields s = [[d1, d2], [m1, m2], [y1, y2, y3, y4]]"
    unfolding date_fields_def t
    using split_three[of "[d1, d2]" "[m1, m2]" "[y1, y2, y3, y4]"] d digit_not_slash
    by auto
  have n: "Number_of_string [d1, d2] \<noteq> None" "Number_of_string [m1, m2] \<noteq> None"
    "Number_of_string [y1, y2, y3, y4] \<noteq> None"
    using d Number_small[of "[d1, d2]"] Number_small[of "[m1, m2]"]
      Number_small[of "[y1, y2, y3, y4]"] by simp_all
  show ?thesis using ne f n by (auto simp: parseDate_Str)
qed

lemma Number_empty: "Number_of_string [] = Some 0"
  by (simp add: Number_of_string_def trim_ws_def)

lemmas number_eval = Number_small is_digit_def digits_value_def digit_val_def

lemma ToInteger_simps:
  "ToIntegerOrInfinity (numeral n) = numeral n" "ToIntegerOrInfinity 0 = 0"
  "ToIntegerOrInfinity 1 = 1" "ToIntegerOrInfinity (- numeral n) = - numeral n"
  "ToIntegerOrInfinity (- 1) = - 1"
  by (simp_all add: ToIntegerOrInfinity_def)

lemma new_Date_slashes: "new_Date 0 (0 - 1) 0 = Day (- 25599)"
proof -
  have m: "MakeDay 1900 (- 1) 0 = - 25599"
    by (simp add: MakeDay_def DayFromYear_def month_start_def InLeapYear_def DaysInYear_def)
  show ?thesis by (simp add: new_Date_def ToInteger_simps m TimeClip_def)
qed

lemma parseDate_slashes: "parseDate (Str ''//'') = Some (Day (- 25599))"
proof -
  have "parseDate (Str ''//'') = Some (new_Date 0 (0 - 1) 0)"
    by (simp add: parseDate_Str date_fields_def split_def Number_empty)
  then show ?thesis by (simp only: new_Date_slashes)
qed

text \<open>
  Claim C5, as amended. \<^verbatim>\<open>parseDate\<close> returns a date exactly when its input is a
  string that is not empty and whose part before the first space splits at the slashes
  into exactly three fields, each of which \<^verbatim>\<open>Number\<close> reads as a finite number. Every
  string of the form \<^verbatim>\<open>DD/MM/YYYY\<close>, with or without a time after a space, is such a
  string; what follows the first space is never looked at; a number, any other value and
  the empty string give no date.
\<close>

theorem parseDate_domain:
  "(parseDate c \<noteq> None)
     = (\<exists>s dd mm yyyy. c = Str s \<and> s \<noteq> [] \<and> date_fields s = [dd, mm, yyyy]
          \<and> Number_of_string dd \<noteq> None \<and> Number_of_string mm \<noteq> None
          \<and> Number_of_string yyyy \<noteq> None)
   \<and> (\<forall>s. spec_DD_MM_YYYY s \<longrightarrow> parseDate (Str s) \<noteq> None)
   \<and> (\<forall>s. parseDate (Str s) = parseDate (Str (takeWhile (\<lambda>c. c \<noteq> CHR '' '') s)))
   \<and> (\<forall>x. parseDate (Num x) = None) \<and> parseDate Other = None \<and> parseDate (Str []) = None"
proof -
  have a: "\<forall>s. spec_DD_MM_YYYY s \<longrightarrow> parseDate (Str s) \<noteq> None"
    using spec_form_parses by blast
  have b: "\<forall>s. parseDate (Str s) = parseDate (Str (takeWhile (\<lambda>c. c \<noteq> CHR '' '') s))"
    using parseDate_time_discarded by blast
  have c: "\<forall>x. parseDate (Num x) = None" "parseDate Other = None" "parseDate (Str []) = None"
    by (simp_all add: parseDate_def)
  show ?thesis using parseDate_iff[of c] a b c by blast
qed

theorem parseDate_domain_witness:
  "spec_DD_MM_YYYY ''15/03/2024 10:30'' \<and> parseDate (Str ''15/03/2024 10:30'') \<noteq> None"
proof -
  have "spec_DD_MM_YYYY ''15/03/2024 10:30''"
    by (simp add: spec_DD_MM_YYYY_def is_digit_def)
  then show ?thesis using parseDate_domain[of Other] by blast
qed

text \<open>
  The form \<^verbatim>\<open>DD/MM/YYYY\<close> is not the only one that gives a date: an empty field reads
  as the number 0, so the string of two slashes is parsed, as 30 November 1899.
\<close>

theorem parseDate_form_counterexample:
  "parseDate (Str ''//'') = Some (Day (- 25599)) \<and> \<not> spec_DD_MM_YYYY ''//''"
  by (simp add: parseDate_slashes spec_DD_MM_YYYY_def)

section \<open>Dates: the calendar\<close>

lemma div_bounds:
  fixes x k :: int
  assumes "0 < k"
  shows "k * (x div k) \<le> x" and "x < k * (x div k) + k"
proof -
  define q where "q = x div k"
  define r where "r = x mod k"
  have e: "x = k * q + r" by (simp add: q_def r_def)
  have r: "0 \<le> r" "r < k" using assms by (simp_all add: r_def)
  show "k * (x div k) \<le> x" using e r(1) unfolding q_def[symmetric] by simp
  show "x < k * (x div k) + k" using e r(2) unfolding q_def[symmetric] by simp
qed

lemma DayFromYear_bounds_aux:
  fixes q a b c :: int
  assumes "4 * a \<le> q + 1" "q + 1 < 4 * a + 4"
    and "100 * b \<le> q + 69" "q + 69 < 100 * b + 100"
    and "400 * c \<le> q + 369" "q + 369 < 400 * c + 400"
  shows "146097 * q - 506 \<le> 146000 * q + 400 * a - 400 * b + 400 * c"
    and "146000 * q + 400 * a - 400 * b + 400 * c \<le> 146097 * q + 589"
proof -
  show "146097 * q - 506 \<le> 146000 * q + 400 * a - 400 * b + 400 * c"
    using assms by linarith
  show "146000 * q + 400 * a - 400 * b + 400 * c \<le> 146097 * q + 589"
    using assms by linarith
qed

lemma DayFromYear_shift:
  "DayFromYear (1970 + q) = 365 * q + (q + 1) div 4 - (q + 69) div 100 + (q + 369) div 400"
proof -
  have "1970 + q - 1969 = q + 1" "1970 + q - 1901 = q + 69" "1970 + q - 1601 = q + 369"
    "1970 + q - 1970 = q" by simp_all
  then show ?thesis unfolding DayFromYear_def by (simp add: add.commute)
qed

lemma DayFromYear_bounds:
  "146097 * q - 506 \<le> 400 * DayFromYear (1970 + q)"
  "400 * DayFromYear (1970 + q) \<le> 146097 * q + 589"
proof -
  define a where "a = (q + 1) div 4"
  define b where "b = (q + 69) div 100"
  define c where "c = (q + 369) div 400"
  have f: "400 * DayFromYear (1970 + q) = 146000 * q + 400 * a - 400 * b + 400 * c"
    by (simp add: DayFromYear_shift a_def b_def c_def)
  have h: "4 * a \<le> q + 1" "q + 1 < 4 * a + 4" "100 * b \<le> q + 69" "q + 69 < 100 * b + 100"
    "400 * c \<le> q + 369" "q + 369 < 400 * c + 400"
    using div_bounds[of 4 "q + 1"] div_bounds[of 100 "q + 69"] div_bounds[of 400 "q + 369"]
    by (simp_all add: a_def b_def c_def)
  show "146097 * q - 506 \<le> 400 * DayFromYear (1970 + q)"
    unfolding f by (rule DayFromYear_bounds_aux(1)[OF h])
  show "400 * DayFromYear (1970 + q) \<le> 146097 * q + 589"
    unfolding f by (rule DayFromYear_bounds_aux(2)[OF h])
qed

text \<open>The year of a day is the year whose first day is the last one not after it.\<close>

lemma YearFromDay_range:
  "DayFromYear (YearFromDay d) \<le> d" "d < DayFromYear (YearFromDay d + 1)"
proof -
  define q where "q = (400 * d) div 146097"
  have qb: "146097 * q \<le> 400 * d" "400 * d < 146097 * q + 146097"
    using div_bounds[of 146097 "400 * d"] by (simp_all add: q_def)
  have "400 * DayFromYear (1970 + (q - 1)) \<le> 146097 * q - 145508"
    using DayFromYear_bounds(2)[of "q - 1"] by (simp add: algebra_simps)
  then have lo: "DayFromYear (1970 + (q - 1)) \<le> d"
    using qb(1) by linarith
  have "146097 * q + 291688 \<le> 400 * DayFromYear (1970 + (q + 2))"
    using DayFromYear_bounds(1)[of "q + 2"] by (simp add: algebra_simps)
  then have hi: "d < DayFromYear (1970 + (q + 2))"
    using qb(2) by linarith
  have e: "1970 + (q - 1) = 1970 + q - 1" "1970 + (q + 2) = 1970 + q + 1 + 1" by simp_all
  show "DayFromYear (YearFromDay d) \<le> d"
    using lo unfolding YearFromDay_def Let_def q_def[symmetric] e by auto
  show "d < DayFromYear (YearFromDay d + 1)"
    using hi unfolding YearFromDay_def Let_def q_def[symmetric] e by auto
qed

lemma div_succ:
  fixes n k :: int
  assumes "1 < k"
  shows "(n + 1) div k = n div k + (if (n + 1) mod k = 0 then 1 else 0)"
proof -
  define q where "q = n div k"
  define r where "r = n mod k"
  have e: "n = k * q + r" by (simp add: q_def r_def)
  have r: "0 \<le> r" "r < k" using assms by (simp_all add: r_def)
  show ?thesis
  proof (cases "r + 1 = k")
    case True
    then have "n + 1 = k * (q + 1) + 0" using e by (simp add: algebra_simps)
    then have "(n + 1) div k = q + 1" "(n + 1) mod k = 0"
      using assms int_div_pos_eq[of "n + 1" k "q + 1" 0] int_mod_pos_eq[of "n + 1" k "q + 1" 0]
      by simp_all
    then show ?thesis by (simp add: q_def)
  next
    case False
    then have lt: "r + 1 < k" using r by simp
    have "n + 1 = k * q + (r + 1)" using e by simp
    then have "(n + 1) div k = q" "(n + 1) mod k = r + 1"
      using lt r int_div_pos_eq[of "n + 1" k q "r + 1"] int_mod_pos_eq[of "n + 1" k q "r + 1"]
      by simp_all
    then show ?thesis using r by (simp add: q_def)
  qed
qed

lemma leap_mods:
  fixes y :: int
  shows "(y - 1968) mod 4 = y mod 4" "(y - 1900) mod 100 = y mod 100"
    "(y - 1600) mod 400 = y mod 400"
proof -
  have "y - 1968 = y + (- 492) * 4" "y - 1900 = y + (- 19) * 100" "y - 1600 = y + (- 4) * 400"
    by simp_all
  then show "(y - 1968) mod 4 = y mod 4" "(y - 1900) mod 100 = y mod 100"
    "(y - 1600) mod 400 = y mod 400"
    by (simp_all only: mod_mult_self1)
qed

lemma mod_chain:
  fixes y :: int
  shows "y mod 400 = 0 \<Longrightarrow> y mod 100 = 0" and "y mod 100 = 0 \<Longrightarrow> y mod 4 = 0"
  using dvd_trans[of 100 400 y] dvd_trans[of 4 100 y] by (simp_all add: mod_eq_0_iff_dvd)

lemma DayFromYear_step: "DayFromYear (y + 1) = DayFromYear y + DaysInYear y"
proof -
  have a: "(y - 1968) div 4 = (y - 1969) div 4 + (if y mod 4 = 0 then 1 else 0)"
    using div_succ[of 4 "y - 1969"] by (simp add: leap_mods)
  have b: "(y - 1900) div 100 = (y - 1901) div 100 + (if y mod 100 = 0 then 1 else 0)"
    using div_succ[of 100 "y - 1901"] by (simp add: leap_mods)
  have c: "(y - 1600) div 400 = (y - 1601) div 400 + (if y mod 400 = 0 then 1 else 0)"
    using div_succ[of 400 "y - 1601"] by (simp add: leap_mods)
  have e: "y + 1 - 1969 = y - 1968" "y + 1 - 1901 = y - 1900" "y + 1 - 1601 = y - 1600"
    "y + 1 - 1970 = y - 1970 + 1" by simp_all
  show ?thesis
    unfolding DayFromYear_def DaysInYear_def e a b c
    using mod_chain[of y] by (auto simp: algebra_simps)
qed

lemma DaysInYear_cases: "DaysInYear y = 365 \<or> DaysInYear y = 366"
  by (simp add: DaysInYear_def)

lemma DayWithinYear_range: "0 \<le> DayWithinYear d" "DayWithinYear d < DaysInYear (YearFromDay d)"
  using YearFromDay_range[of d] DayFromYear_step[of "YearFromDay d"]
  by (simp_all add: DayWithinYear_def)

lemma InLeapYear_cases: "InLeapYear y = 0 \<and> DaysInYear y = 365 \<or> InLeapYear y = 1 \<and> DaysInYear y = 366"
  using DaysInYear_cases[of y] by (auto simp: InLeapYear_def)

lemma MonthFromDay_range: "0 \<le> MonthFromDay d" "MonthFromDay d \<le> 11"
  by (simp_all add: MonthFromDay_def Let_def)

lemma MonthFromDay_window:
  fixes d :: int
  defines "leap \<equiv> InLeapYear (YearFromDay d)"
  shows "month_start (MonthFromDay d) leap \<le> DayWithinYear d"
    and "DayWithinYear d < month_start (MonthFromDay d) leap
            + DaysInMonth (YearFromDay d) (MonthFromDay d)"
proof -
  have r: "0 \<le> DayWithinYear d" "DayWithinYear d < DaysInYear (YearFromDay d)"
    by (rule DayWithinYear_range)+
  have l: "leap = 0 \<and> DaysInYear (YearFromDay d) = 365 \<or> leap = 1 \<and> DaysInYear (YearFromDay d) = 366"
    unfolding leap_def by (rule InLeapYear_cases)
  show "month_start (MonthFromDay d) leap \<le> DayWithinYear d"
    using r l unfolding MonthFromDay_def Let_def leap_def[symmetric]
    by (auto simp: month_start_def)
  show "DayWithinYear d < month_start (MonthFromDay d) leap
            + DaysInMonth (YearFromDay d) (MonthFromDay d)"
    using r l unfolding MonthFromDay_def Let_def leap_def[symmetric]
    by (auto simp: month_start_def DaysInMonth_def leap_def[symmetric])
qed

lemma DateFromDay_range:
  "1 \<le> DateFromDay d" "DateFromDay d \<le> DaysInMonth (YearFromDay d) (MonthFromDay d)"
  using MonthFromDay_window[of d] by (simp_all add: DateFromDay_def)

lemma MakeDay_month:
  assumes "0 \<le> mn" "mn \<le> 11"
  shows "MakeDay y mn dt = DayFromYear y + month_start mn (InLeapYear y) + dt - 1"
proof -
  have "mn div 12 = 0" "mn mod 12 = mn" using assms by simp_all
  then show ?thesis by (simp add: MakeDay_def)
qed

text \<open>A day is the day built from its own year, month and date.\<close>

lemma MakeDay_of_fields:
  "MakeDay (YearFromDay d) (MonthFromDay d) (DateFromDay d) = d"
  by (simp add: MakeDay_month MonthFromDay_range DateFromDay_def DayWithinYear_def)

lemma DayFromYear_add: "DayFromYear y + 365 * int n \<le> DayFromYear (y + int n)"
proof (induction n)
  case 0 then show ?case by simp
next
  case (Suc n)
  have "DayFromYear (y + int (Suc n)) = DayFromYear (y + int n) + DaysInYear (y + int n)"
    using DayFromYear_step[of "y + int n"] by (simp add: ac_simps)
  with Suc DaysInYear_cases[of "y + int n"] show ?case by auto
qed

lemma DayFromYear_mono: "y1 \<le> y2 \<Longrightarrow> DayFromYear y1 \<le> DayFromYear y2"
  using DayFromYear_add[of y1 "nat (y2 - y1)"] by simp

lemma YearFromDay_unique:
  assumes "DayFromYear y \<le> d" and "d < DayFromYear (y + 1)"
  shows "YearFromDay d = y"
proof (rule ccontr)
  assume ne: "YearFromDay d \<noteq> y"
  have r: "DayFromYear (YearFromDay d) \<le> d" "d < DayFromYear (YearFromDay d + 1)"
    by (rule YearFromDay_range)+
  show False
  proof (cases "YearFromDay d < y")
    case True
    then have "DayFromYear (YearFromDay d + 1) \<le> DayFromYear y" by (intro DayFromYear_mono) simp
    with r(2) assms(1) show False by simp
  next
    case False
    with ne have "DayFromYear (y + 1) \<le> DayFromYear (YearFromDay d)" by (intro DayFromYear_mono) simp
    with r(1) assms(2) show False by simp
  qed
qed

lemma month_start_bounds:
  assumes "0 \<le> mn" "mn \<le> 11" "1 \<le> dt" "dt \<le> DaysInMonth y mn"
  shows "0 \<le> month_start mn (InLeapYear y) + dt - 1"
    and "month_start mn (InLeapYear y) + dt - 1 < DaysInYear y"
proof -
  from assms(1,2) have m: "mn \<in> {0, 1, 2, 3, 4, 5, 6, 7, 8, 9, 10, 11}" by simp arith
  show "0 \<le> month_start mn (InLeapYear y) + dt - 1"
    using m assms(3) InLeapYear_cases[of y] by (auto simp: month_start_def)
  show "month_start mn (InLeapYear y) + dt - 1 < DaysInYear y"
    using m assms(4) InLeapYear_cases[of y] by (auto simp: month_start_def DaysInMonth_def)
qed

text \<open>The fields of the day built from a date of the calendar are that date.\<close>

lemma fields_of_MakeDay:
  assumes "valid_date y mn dt"
  shows "YearFromDay (MakeDay y mn dt) = y" and "MonthFromDay (MakeDay y mn dt) = mn"
    and "DateFromDay (MakeDay y mn dt) = dt"
proof -
  from assms have v: "0 \<le> mn" "mn \<le> 11" "1 \<le> dt" "dt \<le> DaysInMonth y mn"
    by (simp_all add: valid_date_def)
  have e: "MakeDay y mn dt = DayFromYear y + (month_start mn (InLeapYear y) + dt - 1)"
    using MakeDay_month[OF v(1,2)] by simp
  have b: "0 \<le> month_start mn (InLeapYear y) + dt - 1"
    "month_start mn (InLeapYear y) + dt - 1 < DaysInYear y"
    by (rule month_start_bounds[OF v])+
  show y: "YearFromDay (MakeDay y mn dt) = y"
    using b by (intro YearFromDay_unique) (simp_all add: e DayFromYear_step)
  have w: "DayWithinYear (MakeDay y mn dt) = month_start mn (InLeapYear y) + dt - 1"
    unfolding DayWithinYear_def y by (simp add: e)
  from v(1,2) have m: "mn \<in> {0, 1, 2, 3, 4, 5, 6, 7, 8, 9, 10, 11}" by simp arith
  have l: "0 \<le> InLeapYear y" "InLeapYear y \<le> 1" by (simp_all add: InLeapYear_def)
  have mo': "MonthFromDay (MakeDay y mn dt) = mn"
    if "mn = k" "k \<in> {0, 1, 2, 3, 4, 5, 6, 7, 8, 9, 10, 11}" for k
    unfolding MonthFromDay_def Let_def w y
    using that v(3,4) l by (elim insertE emptyE) (simp_all add: month_start_def DaysInMonth_def)
  show mo: "MonthFromDay (MakeDay y mn dt) = mn"
    using mo'[of mn] m by simp
  show "DateFromDay (MakeDay y mn dt) = dt"
    by (simp add: DateFromDay_def w y mo)
qed

lemma valid_fields: "valid_date (YearFromDay d) (MonthFromDay d) (DateFromDay d)"
  by (simp add: valid_date_def MonthFromDay_range DateFromDay_range)

section \<open>The deposit window\<close>

lemma new_Date_2024_01_15: "new_Date 2024 (1 - 1) 15 = Day 19737"
proof -
  have m: "MakeDay 2024 0 15 = 19737"
    by (simp add: MakeDay_def DayFromYear_def month_start_def InLeapYear_def DaysInYear_def)
  show ?thesis by (simp add: new_Date_def ToInteger_simps m TimeClip_def)
qed

lemma MakeDay_2024_2_15: "MakeDay 2024 2 15 = 19797"
  by (simp add: MakeDay_def DayFromYear_def month_start_def InLeapYear_def DaysInYear_def)

lemma new_Date_2024_03_15: "new_Date 2024 (3 - 1) 15 = Day 19797"
proof -
  show ?thesis by (simp add: new_Date_def ToInteger_simps MakeDay_2024_2_15 TimeClip_def)
qed

lemma new_Date_2024_03_16: "new_Date 2024 (3 - 1) 16 = Day 19798"
proof -
  have m: "MakeDay 2024 2 16 = 19798"
    by (simp add: MakeDay_def DayFromYear_def month_start_def InLeapYear_def DaysInYear_def)
  show ?thesis by (simp add: new_Date_def ToInteger_simps m TimeClip_def)
qed

lemma from_2024_01_15: "fromDateInputValue ''2024-01-15'' = Some (Day 19737)"
proof -
  have "fromDateInputValue ''2024-01-15'' = Some (new_Date 2024 (1 - 1) 15)"
    by (simp add: fromDateInputValue_def split_def number_eval)
  then show ?thesis by (simp only: new_Date_2024_01_15)
qed

lemma from_2024_03_15: "fromDateInputValue ''2024-03-15'' = Some (Day 19797)"
proof -
  have "fromDateInputValue ''2024-03-15'' = Some (new_Date 2024 (3 - 1) 15)"
    by (simp add: fromDateInputValue_def split_def number_eval)
  then show ?thesis by (simp only: new_Date_2024_03_15)
qed

lemma parse_15_03_2024: "parseDate (Str ''15/03/2024'') = Some (Day 19797)"
proof -
  have "parseDate (Str ''15/03/2024'') = Some (new_Date 2024 (3 - 1) 15)"
    by (simp add: parseDate_Str date_fields_def split_def number_eval)
  then show ?thesis by (simp only: new_Date_2024_03_15)
qed

lemma parse_16_03_2024: "parseDate (Str ''16/03/2024'') = Some (Day 19798)"
proof -
  have "parseDate (Str ''16/03/2024'') = Some (new_Date 2024 (3 - 1) 16)"
    by (simp add: parseDate_Str date_fields_def split_def number_eval)
  then show ?thesis by (simp only: new_Date_2024_03_16)
qed

lemma MakeDay_normal: "MakeDay y mn dt = MakeDay (y + mn div 12) (mn mod 12) dt"
proof -
  have "mn mod 12 div 12 = 0" "mn mod 12 mod 12 = mn mod 12" by simp_all
  then show ?thesis unfolding MakeDay_def Let_def by simp
qed

lemma MakeDay_date: "MakeDay y mn (a + b) = MakeDay y mn a + b"
  by (simp add: MakeDay_def Let_def)

lemma depositDateRange_valid:
  assumes "fromDateInputValue v = Some (Day s)"
  shows "depositDateRange v =
           Some (Day s, TimeClip (MakeDay (YearFromDay s) (MonthFromDay s + 2) (DateFromDay s)))"
  using assms by (simp add: depositDateRange_def setMonth_def getMonth_def)

lemma data_rows_set:
  "set (data_rows rows (Some (start, end_date)))
     = {row \<in> set rows. date_le start (expirationDate row) \<and> date_le (expirationDate row) end_date}"
  by (simp add: data_rows_def)

lemma date_le_Day: "date_le (Day a) d = (\<exists>x. d = Day x \<and> a \<le> x)"
  "date_le d (Day b) = (\<exists>x. d = Day x \<and> x \<le> b)"
  by (cases d; simp add: date_le_def)+

lemma fields_19737:
  "YearFromDay 19737 = 2024" "MonthFromDay 19737 = 0" "DateFromDay 19737 = 15"
proof -
  have "valid_date 2024 0 15" by (simp add: valid_date_def DaysInMonth_def)
  moreover have "MakeDay 2024 0 15 = 19737"
    by (simp add: MakeDay_def DayFromYear_def month_start_def InLeapYear_def DaysInYear_def)
  ultimately show "YearFromDay 19737 = 2024" "MonthFromDay 19737 = 0" "DateFromDay 19737 = 15"
    using fields_of_MakeDay[of 2024 0 15] by simp_all
qed

lemma range_2024_01_15: "depositDateRange ''2024-01-15'' = Some (Day 19737, Day 19797)"
proof -
  have "MakeDay 2024 2 15 = 19797" by (rule MakeDay_2024_2_15)
  then show ?thesis
    by (simp add: depositDateRange_valid[OF from_2024_01_15] fields_19737 TimeClip_def)
qed

lemma from_2023_12_31: "fromDateInputValue ''2023-12-31'' = Some (Day 19722)"
proof -
  have m: "MakeDay 2023 11 31 = 19722"
    by (simp add: MakeDay_def DayFromYear_def month_start_def InLeapYear_def DaysInYear_def)
  have "fromDateInputValue ''2023-12-31'' = Some (new_Date 2023 (12 - 1) 31)"
    by (simp add: fromDateInputValue_def split_def number_eval)
  then show ?thesis by (simp add: new_Date_def ToInteger_simps m TimeClip_def)
qed

lemma fields_19722:
  "YearFromDay 19722 = 2023" "MonthFromDay 19722 = 11" "DateFromDay 19722 = 31"
proof -
  have "valid_date 2023 11 31" by (simp add: valid_date_def DaysInMonth_def)
  moreover have "MakeDay 2023 11 31 = 19722"
    by (simp add: MakeDay_def DayFromYear_def month_start_def InLeapYear_def DaysInYear_def)
  ultimately show "YearFromDay 19722 = 2023" "MonthFromDay 19722 = 11" "DateFromDay 19722 = 31"
    using fields_of_MakeDay[of 2023 11 31] by simp_all
qed

lemma from_2024_03_02: "fromDateInputValue ''2024-03-02'' = Some (Day 19784)"
proof -
  have m: "MakeDay 2024 2 2 = 19784"
    by (simp add: MakeDay_def DayFromYear_def month_start_def InLeapYear_def DaysInYear_def)
  have "fromDateInputValue ''2024-03-02'' = Some (new_Date 2024 (3 - 1) 2)"
    by (simp add: fromDateInputValue_def split_def number_eval)
  then show ?thesis by (simp add: new_Date_def ToInteger_simps m TimeClip_def)
qed

text \<open>
  Claim C3. For a start date \<open>v\<close> typed into the date input that is the day \<open>s\<close>,
  with year \<open>y\<close>, month \<open>mn\<close> and day of the month \<open>dt\<close>: the window starts at \<open>s\<close>
  and ends at the day \<open>e\<close> that is \<open>dt - 1\<close> days after the first day of the month two
  calendar months later. That is the same day of the month there when the month has
  it, and otherwise as many days past the month's last day as \<open>dt\<close> exceeds its
  length. A deposit row is shown exactly when its expiration date lies between the
  start and the end, both included. For the start 2024-01-15 the end is 2024-03-15; a
  row that expires on 2024-03-15 is shown and one that expires on 2024-03-16 is not.
\<close>

theorem deposit_expiry_window:
  assumes "fromDateInputValue v = Some (Day s)"
    and "y = YearFromDay s" and "mn = MonthFromDay s" and "dt = DateFromDay s"
    and "y' = y + (mn + 2) div 12" and "mn' = (mn + 2) mod 12"
    and "e = MakeDay y (mn + 2) dt"
  shows "s = MakeDay y mn dt \<and> valid_date y mn dt
    \<and> depositDateRange v = Some (Day s, TimeClip e)
    \<and> 12 * y' + mn' = 12 * y + mn + 2 \<and> 0 \<le> mn' \<and> mn' \<le> 11
    \<and> e = MakeDay y' mn' 1 + (dt - 1)
    \<and> (dt \<le> DaysInMonth y' mn' \<longrightarrow>
          YearFromDay e = y' \<and> MonthFromDay e = mn' \<and> DateFromDay e = dt)
    \<and> (DaysInMonth y' mn' < dt \<longrightarrow>
          e = MakeDay y' mn' (DaysInMonth y' mn') + (dt - DaysInMonth y' mn'))
    \<and> (\<forall>rows row. (row \<in> set (data_rows rows (depositDateRange v)))
          = (row \<in> set rows \<and> date_le (Day s) (expirationDate row)
               \<and> date_le (expirationDate row) (TimeClip e)))
    \<and> (\<forall>rows row x. \<bar>e\<bar> \<le> 100000000 \<longrightarrow> expirationDate row = Day x \<longrightarrow>
          (row \<in> set (data_rows rows (depositDateRange v))) = (row \<in> set rows \<and> s \<le> x \<and> x \<le> e))
    \<and> depositDateRange ''2024-01-15'' = Some (Day 19737, Day 19797)
    \<and> fromDateInputValue ''2024-03-15'' = Some (Day 19797)
    \<and> parseDate (Str ''15/03/2024'') = Some (Day 19797)
    \<and> parseDate (Str ''16/03/2024'') = Some (Day 19798)
    \<and> data_rows [r\<lparr>expirationDate := Day 19797\<rparr>, r\<lparr>expirationDate := Day 19798\<rparr>]
          (depositDateRange ''2024-01-15'') = [r\<lparr>expirationDate := Day 19797\<rparr>]"
proof -
  have a: "s = MakeDay y mn dt" using assms(2-4) by (simp add: MakeDay_of_fields)
  have b: "valid_date y mn dt" using assms(2-4) by (simp add: valid_fields)
  have c: "depositDateRange v = Some (Day s, TimeClip e)"
    using depositDateRange_valid[OF assms(1)] assms(2-4,7) by simp
  have d: "12 * y' + mn' = 12 * y + mn + 2" "0 \<le> mn'" "mn' \<le> 11"
    using assms(5,6) by (simp_all add: algebra_simps)
  have e': "e = MakeDay y' mn' dt" using assms(5-7) MakeDay_normal[of y "mn + 2" dt] by simp
  have f: "e = MakeDay y' mn' 1 + (dt - 1)"
    using MakeDay_date[of y' mn' 1 "dt - 1"] e' by simp
  have g: "dt \<le> DaysInMonth y' mn' \<longrightarrow>
          YearFromDay e = y' \<and> MonthFromDay e = mn' \<and> DateFromDay e = dt"
  proof
    assume "dt \<le> DaysInMonth y' mn'"
    then have "valid_date y' mn' dt" using b d(2,3) by (simp add: valid_date_def)
    then show "YearFromDay e = y' \<and> MonthFromDay e = mn' \<and> DateFromDay e = dt"
      using fields_of_MakeDay[of y' mn' dt] e' by simp
  qed
  have h: "DaysInMonth y' mn' < dt \<longrightarrow>
          e = MakeDay y' mn' (DaysInMonth y' mn') + (dt - DaysInMonth y' mn')"
    using MakeDay_date[of y' mn' "DaysInMonth y' mn'" "dt - DaysInMonth y' mn'"] e' by simp
  have i: "\<forall>rows row. (row \<in> set (data_rows rows (depositDateRange v)))
          = (row \<in> set rows \<and> date_le (Day s) (expirationDate row)
               \<and> date_le (expirationDate row) (TimeClip e))"
    by (simp add: c data_rows_set)
  have j: "\<forall>rows row x. \<bar>e\<bar> \<le> 100000000 \<longrightarrow> expirationDate row = Day x \<longrightarrow>
          (row \<in> set (data_rows rows (depositDateRange v))) = (row \<in> set rows \<and> s \<le> x \<and> x \<le> e)"
    by (simp add: c data_rows_set TimeClip_def date_le_def)
  have k: "depositDateRange ''2024-01-15'' = Some (Day 19737, Day 19797)"
    by (rule range_2024_01_15)
  have l: "data_rows [r\<lparr>expirationDate := Day 19797\<rparr>, r\<lparr>expirationDate := Day 19798\<rparr>]
          (depositDateRange ''2024-01-15'') = [r\<lparr>expirationDate := Day 19797\<rparr>]"
    by (simp add: k data_rows_def date_le_def)
  note m = from_2024_03_15 parse_15_03_2024 parse_16_03_2024
  show ?thesis
    using a b c d f g h i j k l m by blast
qed

theorem deposit_expiry_window_witness:
  "fromDateInputValue ''2024-01-15'' = Some (Day 19737)
   \<and> 2024 = YearFromDay 19737 \<and> 0 = MonthFromDay 19737 \<and> 15 = DateFromDay 19737
   \<and> 15 \<le> DaysInMonth 2024 2
   \<and> depositDateRange ''2024-01-15'' = Some (Day 19737, TimeClip (MakeDay 2024 (0 + 2) 15))
   \<and> YearFromDay (MakeDay 2024 (0 + 2) 15) = 2024
   \<and> MonthFromDay (MakeDay 2024 (0 + 2) 15) = 2
   \<and> DateFromDay (MakeDay 2024 (0 + 2) 15) = 15
   \<and> fromDateInputValue ''2023-12-31'' = Some (Day 19722)
   \<and> 2023 = YearFromDay 19722 \<and> 11 = MonthFromDay 19722 \<and> 31 = DateFromDay 19722
   \<and> DaysInMonth 2024 1 < 31
   \<and> depositDateRange ''2023-12-31'' = Some (Day 19722, TimeClip (MakeDay 2023 (11 + 2) 31))
   \<and> MakeDay 2023 (11 + 2) 31 = MakeDay 2024 1 (DaysInMonth 2024 1) + (31 - DaysInMonth 2024 1)
   \<and> MakeDay 2023 (11 + 2) 31 = 19784
   \<and> fromDateInputValue ''2024-03-02'' = Some (Day 19784)"
proof -
  have d: "15 \<le> DaysInMonth 2024 2" by (simp add: DaysInMonth_def)
  have y': "(2024::int) = 2024 + (0 + 2) div 12" and m': "(2::int) = (0 + 2) mod 12" by simp_all
  note w = deposit_expiry_window[OF from_2024_01_15 fields_19737(1)[symmetric]
      fields_19737(2)[symmetric] fields_19737(3)[symmetric] y' m' refl]
  have o: "DaysInMonth 2024 1 < 31"
    by (simp add: DaysInMonth_def InLeapYear_def DaysInYear_def)
  have y2: "(2024::int) = 2023 + (11 + 2) div 12" and m2: "(1::int) = (11 + 2) mod 12" by simp_all
  note w2 = deposit_expiry_window[OF from_2023_12_31 fields_19722(1)[symmetric]
      fields_19722(2)[symmetric] fields_19722(3)[symmetric] y2 m2 refl]
  have v: "MakeDay 2023 (11 + 2) 31 = 19784"
    by (simp add: MakeDay_def DayFromYear_def month_start_def InLeapYear_def DaysInYear_def)
  show ?thesis
    using w w2 d o v from_2024_01_15 from_2023_12_31 from_2024_03_02
      fields_19737(1)[symmetric] fields_19737(2)[symmetric] fields_19737(3)[symmetric]
      fields_19722(1)[symmetric] fields_19722(2)[symmetric] fields_19722(3)[symmetric]
    by blast
qed

section \<open>The deposit normalizer\<close>

lemma set_insert_by: "set (insert_by compare x ys) = insert x (set ys)"
  by (induction ys) auto

lemma set_sort_by: "set (sort_by compare xs) = set xs"
  by (induction xs) (simp_all add: sort_by_def set_insert_by)

lemma mset_insert_by: "mset (insert_by compare x ys) = add_mset x (mset ys)"
  by (induction ys) auto

lemma mset_sort_by: "mset (sort_by compare xs) = mset xs"
  by (induction xs) (simp_all add: sort_by_def mset_insert_by)

lemma deposit_row_defined:
  "(deposit_row numToString row \<noteq> None)
     = (stringFrom numToString row ''User ID'' \<noteq> []
        \<and> parseDate (row ''Deposit Expiration Time'') \<noteq> None)"
  by (auto simp: deposit_row_def Let_def split: option.splits)

lemma deposit_row_fields:
  assumes "deposit_row numToString row = Some r"
  shows "userId r = stringFrom numToString row ''User ID''"
    and "parseDate (row ''Deposit Expiration Time'') = Some (expirationDate r)"
    and "depositClinicCode r
           = or_default (stringFrom numToString row ''Deposit Purchase Clinic Code'') ''Unknown''"
  using assms by (auto simp: deposit_row_def Let_def split: option.splits if_splits)

lemma map_filter_Some:
  "map Some (List.map_filter f xs) = map f (filter (\<lambda>x. f x \<noteq> None) xs)"
  by (induction xs) (auto simp: List.map_filter_simps split: option.splits)

lemma processedRows_retained:
  "map Some (processedRows numToString jsonData)
     = map (deposit_row numToString)
         (filter (\<lambda>row. 0 < numberFrom row ''Remaining Quantity''
                    \<and> stringFrom numToString row ''User ID'' \<noteq> []
                    \<and> parseDate (row ''Deposit Expiration Time'') \<noteq> None) jsonData)"
proof -
  have "filter (\<lambda>x. deposit_row numToString x \<noteq> None)
          (filter (\<lambda>row. 0 < numberFrom row ''Remaining Quantity'') jsonData)
        = filter (\<lambda>row. 0 < numberFrom row ''Remaining Quantity''
                    \<and> stringFrom numToString row ''User ID'' \<noteq> []
                    \<and> parseDate (row ''Deposit Expiration Time'') \<noteq> None) jsonData"
    unfolding filter_filter deposit_row_defined
    by (rule filter_cong) auto
  then show ?thesis unfolding processedRows_def map_filter_Some by (rule arg_cong)
qed

text \<open>
  Claim C4. The rows kept by the deposit normalizer are, in the order of the sheet, the
  records of exactly those raw rows whose remaining quantity (by \<^verbatim>\<open>numberFrom\<close>) is
  above 0, whose user id is not empty and whose expiration time parses (by
  \<^verbatim>\<open>parseDate\<close>); a single row gives a record if and only if it meets the three
  conditions, whatever its other fields are; the final sort only reorders. A row whose
  other fields are all blank is kept, under the clinic code \<^verbatim>\<open>Unknown\<close>.
\<close>

theorem deposit_inclusion:
  "map Some (processedRows numToString jsonData)
     = map (deposit_row numToString)
         (filter (\<lambda>row. 0 < numberFrom row ''Remaining Quantity''
                    \<and> stringFrom numToString row ''User ID'' \<noteq> []
                    \<and> parseDate (row ''Deposit Expiration Time'') \<noteq> None) jsonData)
   \<and> (processedRows numToString [row] \<noteq> [])
       = (0 < numberFrom row ''Remaining Quantity''
          \<and> stringFrom numToString row ''User ID'' \<noteq> []
          \<and> parseDate (row ''Deposit Expiration Time'') \<noteq> None)
   \<and> mset (handleFileUpload numToString localeCompare jsonData)
       = mset (processedRows numToString jsonData)
   \<and> (\<forall>r. (r \<in> set (handleFileUpload numToString localeCompare jsonData))
          = (\<exists>row \<in> set jsonData.
               0 < numberFrom row ''Remaining Quantity''
               \<and> stringFrom numToString row ''User ID'' \<noteq> []
               \<and> parseDate (row ''Deposit Expiration Time'') \<noteq> None
               \<and> deposit_row numToString row = Some r))
   \<and> handleFileUpload numToString localeCompare
         [(\<lambda>k. Str [])(''Remaining Quantity'' := Num 1, ''User ID'' := Str ''u1'',
                         ''Deposit Expiration Time'' := Str ''15/03/2024 10:30'')]
       = [\<lparr> depositClinicCode = ''Unknown'', userId = ''u1'', omnicareId = [], userName = [],
             phoneNumber = [], treatmentName = [], expirationDate = Day 19797 \<rparr>]"
proof -
  have a: "map Some (processedRows numToString jsonData)
     = map (deposit_row numToString)
         (filter (\<lambda>row. 0 < numberFrom row ''Remaining Quantity''
                    \<and> stringFrom numToString row ''User ID'' \<noteq> []
                    \<and> parseDate (row ''Deposit Expiration Time'') \<noteq> None) jsonData)"
    by (rule processedRows_retained)
  have b: "(processedRows numToString [row] \<noteq> [])
       = (0 < numberFrom row ''Remaining Quantity''
          \<and> stringFrom numToString row ''User ID'' \<noteq> []
          \<and> parseDate (row ''Deposit Expiration Time'') \<noteq> None)"
    using deposit_row_defined[of numToString row]
    by (auto simp: processedRows_def List.map_filter_simps split: option.splits)
  have c: "mset (handleFileUpload numToString localeCompare jsonData)
       = mset (processedRows numToString jsonData)"
    by (simp add: handleFileUpload_def mset_sort_by)
  have d: "\<forall>r. (r \<in> set (handleFileUpload numToString localeCompare jsonData))
          = (\<exists>row \<in> set jsonData.
               0 < numberFrom row ''Remaining Quantity''
               \<and> stringFrom numToString row ''User ID'' \<noteq> []
               \<and> parseDate (row ''Deposit Expiration Time'') \<noteq> None
               \<and> deposit_row numToString row = Some r)"
  proof
    fix r
    have "(r \<in> set (handleFileUpload numToString localeCompare jsonData))
            = (Some r \<in> set (map Some (processedRows numToString jsonData)))"
      by (auto simp: handleFileUpload_def set_sort_by)
    also have "\<dots> = (\<exists>row \<in> set jsonData.
               0 < numberFrom row ''Remaining Quantity''
               \<and> stringFrom numToString row ''User ID'' \<noteq> []
               \<and> parseDate (row ''Deposit Expiration Time'') \<noteq> None
               \<and> deposit_row numToString row = Some r)"
      unfolding a by (auto simp: image_iff)
    finally show "(r \<in> set (handleFileUpload numToString localeCompare jsonData))
          = (\<exists>row \<in> set jsonData.
               0 < numberFrom row ''Remaining Quantity''
               \<and> stringFrom numToString row ''User ID'' \<noteq> []
               \<and> parseDate (row ''Deposit Expiration Time'') \<noteq> None
               \<and> deposit_row numToString row = Some r)" .
  qed
  have p: "parseDate (Str ''15/03/2024 10:30'') = Some (Day 19797)"
    using parseDate_time_discarded[of "''15/03/2024 10:30''"] parse_15_03_2024 by simp
  have e: "handleFileUpload numToString localeCompare
         [(\<lambda>k. Str [])(''Remaining Quantity'' := Num 1, ''User ID'' := Str ''u1'',
                         ''Deposit Expiration Time'' := Str ''15/03/2024 10:30'')]
       = [\<lparr> depositClinicCode = ''Unknown'', userId = ''u1'', omnicareId = [], userName = [],
             phoneNumber = [], treatmentName = [], expirationDate = Day 19797 \<rparr>]"
    by (simp add: handleFileUpload_def processedRows_def List.map_filter_simps deposit_row_def
        numberFrom_def stringFrom_def or_default_def p sort_by_def)
  show ?thesis using a b c d e by blast
qed

section \<open>The revenue cross-validation\<close>






section \<open>Clinic maps\<close>

lemma update_entry_twice:
  "update_entry k f (update_entry k g m) = update_entry k (f \<circ> g) m"
  by (induction m) (auto simp: update_entry_def)



lemma set_update_entry:
  "set (update_entry k f m) = (\<lambda>(k', v). if k' = k then (k', f v) else (k', v)) ` set m"
  by (simp add: update_entry_def)

lemma fst_update_entry: "map fst (update_entry k f m) = map fst m"
  by (induction m) (auto simp: update_entry_def)



section \<open>The revenue aggregation\<close>




lemma lower_treatment_examples:
  "toLowerCase ''TREATMENT'' = ''treatment''" "toLowerCase ''Treatment'' = ''treatment''"
  "toLowerCase ''PRODUCT'' = ''product''" "toLowerCase ''Product'' = ''product''"
  by (simp_all add: toLowerCase_def lower_char_def)




section \<open>The cash-in aggregation\<close>

lemma cashin_row_eq:
  "cashin_row numToString m row =
     (let code = or_default (stringFrom numToString row ''Clinic Code'') ''Unknown'';
          paymentMethod = or_default (stringFrom numToString row ''Payment Method'') ''Unknown''
      in update_entry code (cashin_add paymentMethod (amountFrom row ''Amount''))
           (ensure_entry code (cashin_init code) m))"
  unfolding cashin_row_def Let_def
  by (auto simp: update_entry_twice cashin_add_def fun_eq_iff intro!: arg_cong2[where f="\<lambda>f m. update_entry k f m" for k])

lemma map_of_set_method:
  "map_of (set_method ms k v) = (map_of ms)(k \<mapsto> v)"
proof (cases "map_of ms k")
  case None
  then show ?thesis by (auto simp: set_method_def map_add_def fun_eq_iff split: option.splits)
next
  case (Some w)
  have "map_of (map (\<lambda>(k', w). if k' = k then (k', v) else (k', w)) ms) k'
          = (if k' = k then map_option (\<lambda>_. v) (map_of ms k) else map_of ms k')" for k'
    by (induction ms) auto
  with Some show ?thesis by (auto simp: set_method_def fun_eq_iff)
qed

lemma method_total_set_method:
  "method_total (set_method ms k v) k' = (if k' = k then v else method_total ms k')"
  by (simp add: method_total_def map_of_set_method)

lemma fst_set_method_known:
  "fst \<circ> (\<lambda>(k', w). if k' = k then (k', v) else (k', w)) = fst"
  by (auto simp: fun_eq_iff)

lemma distinct_set_method:
  assumes "distinct (map fst ms)"
  shows "distinct (map fst (set_method ms k v))"
proof (cases "map_of ms k")
  case None
  then have "k \<notin> fst ` set ms" by (simp add: map_of_eq_None_iff)
  with assms None show ?thesis by (simp add: set_method_def)
next
  case (Some w)
  with assms show ?thesis by (simp add: set_method_def fst_set_method_known)
qed

lemma sum_replace:
  assumes "distinct (map fst ms)" and "map_of ms k = Some w"
  shows "sum_list (map snd (map (\<lambda>(k', u). if k' = k then (k', v) else (k', u)) ms))
           = sum_list (map snd ms) - w + (v::real)"
  using assms
proof (induction ms)
  case Nil then show ?case by simp
next
  case (Cons p ps)
  obtain a b where p: "p = (a, b)" by (cases p)
  show ?case
  proof (cases "a = k")
    case True
    with Cons.prems p have "k \<notin> fst ` set ps" "b = w" by auto
    then have "map (\<lambda>(k', u). if k' = k then (k', v) else (k', u)) ps = ps"
      by (intro map_idI) (auto simp: rev_image_eqI)
    with True p \<open>b = w\<close> show ?thesis by simp
  next
    case False
    with Cons p show ?thesis by simp
  qed
qed

lemma sum_set_method:
  assumes "distinct (map fst ms)"
  shows "sum_list (map snd (set_method ms k v)) = sum_list (map snd ms) - method_total ms k + v"
proof (cases "map_of ms k")
  case None
  then show ?thesis by (simp add: set_method_def method_total_def)
next
  case (Some w)
  then show ?thesis using sum_replace[OF assms Some, of v] by (simp add: set_method_def method_total_def)
qed

lemma cashin_inv_init: "cashin_inv (cashin_init code)"
  by (simp add: cashin_inv_def cashin_init_def method_total_def)

lemma cashin_inv_add:
  assumes "cashin_inv c"
  shows "cashin_inv (cashin_add paymentMethod amount c)"
  using assms
  by (auto simp: cashin_inv_def cashin_add_def distinct_set_method sum_set_method
      method_total_set_method)

lemma cashin_inv_row:
  assumes "\<forall>(k, c) \<in> set m. cashin_inv c"
  shows "\<forall>(k, c) \<in> set (cashin_row numToString m row). cashin_inv c"
  using assms
  by (auto simp: cashin_row_eq Let_def set_update_entry ensure_entry_def cashin_inv_init
      cashin_inv_add split: if_splits)

lemma cashin_inv_foldl:
  assumes "\<forall>(k, c) \<in> set m. cashin_inv c"
  shows "\<forall>(k, c) \<in> set (foldl (cashin_row numToString) m rows). cashin_inv c"
  using assms
proof (induction rows arbitrary: m)
  case Nil then show ?case by simp
next
  case (Cons r rs)
  show ?case using Cons.IH[OF cashin_inv_row[OF Cons.prems]] by simp
qed

lemma cashin_inv_clinicMap:
  "(k, c) \<in> set (cashin_clinicMap numToString rows) \<Longrightarrow> cashin_inv c"
  using cashin_inv_foldl[of "[]" numToString rows] by (auto simp: cashin_clinicMap_def)

lemma handleCashinUpload_set:
  "set (handleCashinUpload numToString localeCompare rows)
     = cashin_finish ` snd ` set (cashin_clinicMap numToString rows)"
  by (simp add: handleCashinUpload_def set_sort_by image_image)

lemmas cashin_eval =
  handleCashinUpload_def cashin_clinicMap_def cashin_row_def Let_def stringFrom_def
  or_default_def amountFrom_def ensure_entry_def update_entry_def set_method_def method_total_def
  cashin_init_def cashin_finish_def sort_by_def

lemma cashin_example:
  "handleCashinUpload numToString localeCompare
     [(\<lambda>k. Other)(''Clinic Code'' := Str ''A'', ''Payment Method'' := Str ''Treatment Deposit'',
                    ''Amount'' := Num 300),
      (\<lambda>k. Other)(''Clinic Code'' := Str ''A'', ''Payment Method'' := Str ''Clinic Voucher - Value'',
                    ''Amount'' := Num 200),
      (\<lambda>k. Other)(''Clinic Code'' := Str ''A'', ''Payment Method'' := Str ''Cash'',
                    ''Amount'' := Num 500)]
   = [\<lparr> nonDepositVoucher = 500, cashinTotal = 1000, cashinClinicCode = ''A'',
        paymentMethodTotals = [(''Treatment Deposit'', 300), (''Clinic Voucher - Value'', 200),
                               (''Cash'', 500)],
        deposit = 300, voucher = 200 \<rparr>]"
  by (simp add: cashin_eval)

text \<open>
  Claim C7. In every clinic summary that the cash-in pipeline returns,
  \<open>nonDepositVoucher\<close> is the total minus the deposit minus the voucher amount. The
  field is set once, after the accumulation: in the clinic map that the rows build it
  is still 0 for every clinic. A clinic with deposits of 300, vouchers of 200 and
  other payments of 500 has total 1000 and \<open>nonDepositVoucher\<close> 500.
\<close>

theorem cashin_nonDepositVoucher:
  "(\<forall>c \<in> set (handleCashinUpload numToString localeCompare jsonData).
      nonDepositVoucher c = cashinTotal c - deposit c - voucher c)
   \<and> (\<forall>(k, c) \<in> set (cashin_clinicMap numToString jsonData). nonDepositVoucher c = 0)
   \<and> handleCashinUpload numToString localeCompare
     [(\<lambda>k. Other)(''Clinic Code'' := Str ''A'', ''Payment Method'' := Str ''Treatment Deposit'',
                    ''Amount'' := Num 300),
      (\<lambda>k. Other)(''Clinic Code'' := Str ''A'', ''Payment Method'' := Str ''Clinic Voucher - Value'',
                    ''Amount'' := Num 200),
      (\<lambda>k. Other)(''Clinic Code'' := Str ''A'', ''Payment Method'' := Str ''Cash'',
                    ''Amount'' := Num 500)]
   = [\<lparr> nonDepositVoucher = 500, cashinTotal = 1000, cashinClinicCode = ''A'',
        paymentMethodTotals = [(''Treatment Deposit'', 300), (''Clinic Voucher - Value'', 200),
                               (''Cash'', 500)],
        deposit = 300, voucher = 200 \<rparr>]"
proof -
  have a: "\<forall>c \<in> set (handleCashinUpload numToString localeCompare jsonData).
      nonDepositVoucher c = cashinTotal c - deposit c - voucher c"
    by (auto simp: handleCashinUpload_set cashin_finish_def)
  have b: "\<forall>(k, c) \<in> set (cashin_clinicMap numToString jsonData). nonDepositVoucher c = 0"
    using cashin_inv_clinicMap[of _ _ numToString jsonData] by (auto simp: cashin_inv_def)
  show ?thesis using a b cashin_example by blast
qed

theorem cashin_nonDepositVoucher_witness:
  "\<lparr> nonDepositVoucher = 0, cashinTotal = 1000, cashinClinicCode = ''A'',
        paymentMethodTotals = [(''Treatment Deposit'', 300), (''Cash'', 700)],
        deposit = 300, voucher = 0 \<rparr>
    \<in> snd ` set (cashin_clinicMap (\<lambda>x. []) 
     [(\<lambda>k. Other)(''Clinic Code'' := Str ''A'', ''Payment Method'' := Str ''Treatment Deposit'',
                    ''Amount'' := Num 300),
      (\<lambda>k. Other)(''Clinic Code'' := Str ''A'', ''Payment Method'' := Str ''Cash'',
                    ''Amount'' := Str ''Rp700'')])
   \<and> \<lparr> nonDepositVoucher = 700, cashinTotal = 1000, cashinClinicCode = ''A'',
        paymentMethodTotals = [(''Treatment Deposit'', 300), (''Cash'', 700)],
        deposit = 300, voucher = 0 \<rparr>
    \<in> set (handleCashinUpload (\<lambda>x. []) (\<lambda>a b. 0)
     [(\<lambda>k. Other)(''Clinic Code'' := Str ''A'', ''Payment Method'' := Str ''Treatment Deposit'',
                    ''Amount'' := Num 300),
      (\<lambda>k. Other)(''Clinic Code'' := Str ''A'', ''Payment Method'' := Str ''Cash'',
                    ''Amount'' := Str ''Rp700'')])
   \<and> (700::real) = 1000 - 300 - 0"
proof -
  let ?rows = "[(\<lambda>k. Other)(''Clinic Code'' := Str ''A'', ''Payment Method'' := Str ''Treatment Deposit'',
                    ''Amount'' := Num 300),
      (\<lambda>k. Other)(''Clinic Code'' := Str ''A'', ''Payment Method'' := Str ''Cash'',
                    ''Amount'' := Str ''Rp700'')]"
  have n: "Number_of_string ''700'' = Some 700"
    using Number_of_digits[of "''700''"] to_finite_nat[of 700]
    by (simp add: is_digit_def digits_value_def digit_val_def)
  have d: "digitsOnly ''Rp700'' = ''700''" by (simp add: digitsOnly_def is_digit_def)
  have m: "cashin_clinicMap (\<lambda>x. []) ?rows =
     [(''A'', \<lparr> nonDepositVoucher = 0, cashinTotal = 1000, cashinClinicCode = ''A'',
        paymentMethodTotals = [(''Treatment Deposit'', 300), (''Cash'', 700)],
        deposit = 300, voucher = 0 \<rparr>)]"
    by (simp add: cashin_eval d n)
  have h: "handleCashinUpload (\<lambda>x. []) (\<lambda>a b. 0) ?rows =
     [\<lparr> nonDepositVoucher = 700, cashinTotal = 1000, cashinClinicCode = ''A'',
        paymentMethodTotals = [(''Treatment Deposit'', 300), (''Cash'', 700)],
        deposit = 300, voucher = 0 \<rparr>]"
    using m by (simp add: handleCashinUpload_def cashin_finish_def sort_by_def)
  show ?thesis
    using cashin_nonDepositVoucher[of "\<lambda>x. []" "\<lambda>a b. 0" ?rows] m h by simp
qed



section \<open>Order independence of the aggregation\<close>



















end
